theory Spec2Isabelle
  imports Complex_Main "HOL-Library.Multiset" "HOL-Library.Signed_Division"
begin

section \<open>Global configuration and data model\<close>

text \<open>
  The program is a draw-call benchmark: a host loop (\<open>main\<close>) drives two compute
  shaders that cull elements and write indirect draw commands, and a vertex shader that
  renders one quad per drawn instance.

  Conventions of the embedding.
  \<^item> Unsigned 32-bit values (\<open>uint\<close>, \<open>GLuint\<close>) are natural numbers; the one
    operation that can wrap, the atomic counter increment, has its \<open>mod 2 ^ 32\<close>
    written out.
  \<^item> The scalar type of \<open>float\<close> data is a type parameter \<open>'f\<close>; the shaders only
    use its \<open>+\<close>, \<open>*\<close>, unary minus, \<open>\<le>\<close>, \<open>0\<close> and \<open>1\<close>, and no law of
    arithmetic is assumed about them.
  \<^item> A buffer object of \<open>uint\<close> records is a function from the \<open>uint\<close> index to the
    value stored there; a \<open>DrawElementsIndirectCommand\<close> at array index \<open>i\<close>
    occupies the five cells \<open>5 * i\<close> \<dots> \<open>5 * i + 4\<close> (std430, 20 bytes).
  \<^item> A uniform has the type its shader declares. A \<open>glUniform*\<close> call whose
    component type does not match it (OpenGL 4.5, section 7.6.1: only a \<open>bool\<close>
    uniform accepts any of the scalar setters) raises \<open>GL_INVALID_OPERATION\<close> and
    leaves the uniform as it is; the errors raised are kept in the state.
\<close>

definition SCREEN_WIDTH :: nat where "SCREEN_WIDTH = 1600"
definition SCREEN_HEIGHT :: nat where "SCREEN_HEIGHT = 900"
definition MAX_ELEMENTS :: nat where "MAX_ELEMENTS = 1000000"

datatype RenderMode = MICRO_BATCH_INDIRECT | INSTANCED_INDIRECT

type_synonym 'f vec2 = "'f \<times> 'f"
type_synonym 'f vec4 = "'f \<times> 'f \<times> 'f \<times> 'f"
type_synonym 'f mat4 = "'f vec4 \<times> 'f vec4 \<times> 'f vec4 \<times> 'f vec4"

record 'f InstanceData =
  position :: "'f vec2"
  size_inst :: "'f vec2"
  color :: "'f vec4"

record DrawElementsIndirectCommand =
  count_cmd :: nat
  instanceCount :: nat
  firstIndex :: nat
  baseVertex :: nat
  baseInstance :: nat

text \<open>GLSL \<open>m * v\<close> for a column-major \<open>mat4\<close> (a tuple of its four columns).\<close>

fun mat_mul_vec :: "('f::{plus,times}) mat4 \<Rightarrow> 'f vec4 \<Rightarrow> 'f vec4" where
  "mat_mul_vec ((a0, a1, a2, a3), (b0, b1, b2, b3), (c0, c1, c2, c3), (d0, d1, d2, d3)) (x, y, z, w) =
     (a0 * x + b0 * y + c0 * z + d0 * w,
      a1 * x + b1 * y + c1 * z + d1 * w,
      a2 * x + b2 * y + c2 * z + d2 * w,
      a3 * x + b3 * y + c3 * z + d3 * w)"

fun vec2_mul :: "('f::times) vec2 \<Rightarrow> 'f vec2 \<Rightarrow> 'f vec2" where
  "vec2_mul (a, b) (c, d) = (a * c, b * d)"

fun vec2_add :: "('f::plus) vec2 \<Rightarrow> 'f vec2 \<Rightarrow> 'f vec2" where
  "vec2_add (a, b) (c, d) = (a + c, b + d)"

fun vec4_of_vec2 :: "'f vec2 \<Rightarrow> 'f \<Rightarrow> 'f \<Rightarrow> 'f vec4" where
  "vec4_of_vec2 (a, b) z w = (a, b, z, w)"

section \<open>GPU memory\<close>

text \<open>
  The buffer objects created in \<open>main\<close>. \<open>instance_ssbo\<close> holds the
  \<open>InstanceData\<close> records (read-only after the upload, and kept in the scene below);
  the other three hold \<open>uint\<close> cells. \<open>stores\<close> records, in order, every shader
  store into a storage buffer performed by the most recent dispatch.
\<close>

datatype buffer = instance_ssbo | visible_id_ssbo | command_buffer | counter_buffer

record gpu_memory =
  cells :: "buffer \<Rightarrow> nat \<Rightarrow> nat"
  stores :: "(buffer \<times> nat) list"

definition store :: "buffer \<Rightarrow> nat \<Rightarrow> nat \<Rightarrow> gpu_memory \<Rightarrow> gpu_memory" where
  "store b i v m =
     m\<lparr>cells := (cells m)(b := (cells m b)(i := v)), stores := stores m @ [(b, i)]\<rparr>"

definition atomicCounterIncrement :: "buffer \<Rightarrow> gpu_memory \<Rightarrow> nat \<times> gpu_memory" where
  "atomicCounterIncrement b m =
     (cells m b 0, m\<lparr>cells := (cells m)(b := (cells m b)(0 := (cells m b 0 + 1) mod 2 ^ 32))\<rparr>)"

definition read_command :: "(nat \<Rightarrow> nat) \<Rightarrow> nat \<Rightarrow> DrawElementsIndirectCommand" where
  "read_command buf i =
     \<lparr>count_cmd = buf (5 * i), instanceCount = buf (5 * i + 1), firstIndex = buf (5 * i + 2),
      baseVertex = buf (5 * i + 3), baseInstance = buf (5 * i + 4)\<rparr>"

text \<open>Allocated sizes of the buffers (\<open>glBufferData\<close> in \<open>main\<close>), in 4-byte cells:
  an \<open>InstanceData\<close> record takes eight, a command five.\<close>

fun capacity :: "buffer \<Rightarrow> nat" where
  "capacity instance_ssbo = MAX_ELEMENTS * 8"
| "capacity visible_id_ssbo = MAX_ELEMENTS"
| "capacity command_buffer = MAX_ELEMENTS * 5"
| "capacity counter_buffer = 1"

section \<open>The shaders\<close>

definition local_size_x :: nat where "local_size_x = 256"

text \<open>
  One work item of \<open>cull_microbatch_cs_source\<close>. \<open>commands\<close> and
  \<open>visible_count\<close> are the buffers bound at storage binding 1 and atomic-counter
  binding 2. A work item is executed as one step: its only access to memory shared
  with other work items is the atomic increment, and its stores go to the slot the
  increment returned.
\<close>

definition cull_microbatch_cs ::
  "nat \<Rightarrow> ('f::{plus,times,uminus,zero,one,ord}) mat4 \<Rightarrow> (nat \<Rightarrow> 'f InstanceData) \<Rightarrow>
   buffer \<Rightarrow> buffer \<Rightarrow> nat \<Rightarrow> gpu_memory \<Rightarrow> gpu_memory" where
  "cull_microbatch_cs total_element_count projection instances commands visible_count gid m =
     (if gid \<ge> total_element_count then m
      else
        let inst = instances gid;
            clip_pos = mat_mul_vec projection (vec4_of_vec2 (position inst) 0 1)
        in case clip_pos of (x, y, z, w) \<Rightarrow>
          let is_visible = (x \<ge> - w \<and> x \<le> w \<and> y \<ge> - w \<and> y \<le> w)
          in if is_visible then
               (case atomicCounterIncrement visible_count m of (index, m1) \<Rightarrow>
                  store commands (5 * index + 4) gid
                    (store commands (5 * index + 3) 0
                      (store commands (5 * index + 2) 0
                        (store commands (5 * index + 1) 1
                          (store commands (5 * index) 6 m1)))))
             else m)"

text \<open>
  One work item of \<open>cull_instanced_cs_source\<close>: \<open>visible_ids\<close> and \<open>command\<close>
  are the buffers at storage bindings 1 and 2, \<open>visible_count\<close> the one at
  atomic-counter binding 3.
\<close>

definition cull_instanced_cs ::
  "nat \<Rightarrow> ('f::{plus,times,uminus,zero,one,ord}) mat4 \<Rightarrow> (nat \<Rightarrow> 'f InstanceData) \<Rightarrow>
   buffer \<Rightarrow> buffer \<Rightarrow> buffer \<Rightarrow> nat \<Rightarrow> gpu_memory \<Rightarrow> gpu_memory" where
  "cull_instanced_cs total_element_count projection instances visible_ids command visible_count gid m =
     (let m0 = (if gid = 0 then
                  store command 4 0
                    (store command 3 0
                      (store command 2 0
                        (store command 1 0
                          (store command 0 6 m))))
                else m)
      in if gid \<ge> total_element_count then m0
         else
           let inst = instances gid;
               clip_pos = mat_mul_vec projection (vec4_of_vec2 (position inst) 0 1)
           in case clip_pos of (x, y, z, w) \<Rightarrow>
             let is_visible = (x \<ge> - w \<and> x \<le> w \<and> y \<ge> - w \<and> y \<le> w)
             in if is_visible then
                  (case atomicCounterIncrement visible_count m0 of (index, m1) \<Rightarrow>
                     store visible_ids index gid m1)
                else m0)"

text \<open>
  The vertex shader \<open>render_vs_source\<close>: the outputs \<open>(gl_Position, v_color)\<close> for
  one vertex. The fragment shader copies \<open>v_color\<close>.
\<close>

definition render_vs ::
  "('f::{plus,times,zero,one}) mat4 \<Rightarrow> bool \<Rightarrow> (nat \<Rightarrow> 'f InstanceData) \<Rightarrow> (nat \<Rightarrow> nat) \<Rightarrow>
   'f vec2 \<Rightarrow> nat \<Rightarrow> nat \<Rightarrow> 'f vec4 \<times> 'f vec4" where
  "render_vs projection is_instanced_mode instances visible_ids a_pos gl_InstanceID gl_BaseInstance =
     (let instance_id = (if is_instanced_mode then visible_ids gl_InstanceID else gl_BaseInstance);
          inst = instances instance_id;
          v_color = color inst;
          final_pos = vec2_add (vec2_mul a_pos (size_inst inst)) (position inst)
      in (mat_mul_vec projection (vec4_of_vec2 final_pos 0 1), v_color))"

section \<open>OpenGL state and the calls the host makes\<close>

datatype program = cull_microbatch_program | cull_instanced_program | render_program

datatype target =
  GL_SHADER_STORAGE_BUFFER | GL_ATOMIC_COUNTER_BUFFER | GL_DRAW_INDIRECT_BUFFER
| GL_COPY_READ_BUFFER | GL_COPY_WRITE_BUFFER

datatype barrier_bit =
  GL_COMMAND_BARRIER_BIT | GL_SHADER_STORAGE_BARRIER_BIT | GL_ATOMIC_COUNTER_BARRIER_BIT

datatype 'f uniform = UInt int | UMat4 "'f mat4"

datatype uniform_type = GL_INT | GL_UNSIGNED_INT | GL_BOOL | GL_FLOAT_MAT4

datatype gl_error = GL_INVALID_OPERATION

type_synonym 'f vertex_out = "'f vec4 \<times> 'f vec4"

text \<open>The calls that transfer data, run shaders, synchronise or present, as the trace
  of a frame records them; calls that only set state (binds, uniforms) are not recorded.\<close>

datatype gl_call =
  BufferSubData buffer
| DispatchCompute program nat
| MemoryBarrier "barrier_bit list"
| MapBufferRange buffer
| CopyBufferSubData buffer buffer nat nat nat
| MultiDrawElementsIndirect nat
| DrawElementsIndirect DrawElementsIndirectCommand
| ImGui_RenderDrawData
| SwapBuffers

text \<open>
  The state the main loop works on: GPU memory, the buffer bindings (generic and
  indexed), the values of the uniforms of the three programs (by location), the program
  in use, the errors raised so far, what the draws of the current frame produced (one entry per drawn instance:
  the vertex shader's outputs for each index of the draw, \<open>None\<close> for an index or vertex
  fetched out of range), the trace, and the host variables of \<open>main\<close>.
\<close>

record 'f gl_state =
  mem :: gpu_memory
  bound :: "target \<Rightarrow> buffer option"
  indexed :: "target \<Rightarrow> nat \<Rightarrow> buffer option"
  uniforms :: "program \<Rightarrow> nat \<Rightarrow> 'f uniform"
  current_program :: "program option"
  gl_errors :: "gl_error list"
  framebuffer :: "'f vertex_out option list list"
  calls :: "gl_call list"
  current_mode :: RenderMode
  element_count :: int
  gpu_draw_calls :: nat

text \<open>What the frames read but never change: the contents of \<open>instance_ssbo\<close>, the
  matrix \<open>glm::ortho(-1, 1, -1, 1, -1, 1)\<close>, and the value of the literal \<open>0.5f\<close> in
  \<open>quad_vertices\<close>.\<close>

record 'f scene =
  instance_cpu_data :: "nat \<Rightarrow> 'f InstanceData"
  ortho :: "'f mat4"
  half :: 'f

definition quad_vertices :: "('f::uminus) scene \<Rightarrow> 'f vec2 list" where
  "quad_vertices sc = [(- half sc, - half sc), (half sc, - half sc), (half sc, half sc), (- half sc, half sc)]"

definition quad_indices :: "nat list" where
  "quad_indices = [0, 1, 2, 2, 3, 0]"

fun run :: "('s \<Rightarrow> 's) list \<Rightarrow> 's \<Rightarrow> 's" where
  "run [] s = s"
| "run (c # cs) s = run cs (c s)"

subsection \<open>Uniforms\<close>

text \<open>The active uniforms of each program with the types its shaders declare; a
  uniform's location is its place in the list.\<close>

fun active_uniforms :: "program \<Rightarrow> (string \<times> uniform_type) list" where
  "active_uniforms cull_microbatch_program =
     [(''total_element_count'', GL_UNSIGNED_INT), (''projection'', GL_FLOAT_MAT4)]"
| "active_uniforms cull_instanced_program =
     [(''total_element_count'', GL_UNSIGNED_INT), (''projection'', GL_FLOAT_MAT4)]"
| "active_uniforms render_program =
     [(''projection'', GL_FLOAT_MAT4), (''is_instanced_mode'', GL_BOOL)]"

fun uniform_location :: "(string \<times> uniform_type) list \<Rightarrow> string \<Rightarrow> int" where
  "uniform_location [] name = - 1"
| "uniform_location ((n, ty) # us) name =
     (if n = name then 0
      else let l = uniform_location us name in if l < 0 then - 1 else l + 1)"

definition glGetUniformLocation :: "program \<Rightarrow> string \<Rightarrow> int" where
  "glGetUniformLocation p name = uniform_location (active_uniforms p) name"

text \<open>
  \<open>glUniform*\<close> act on the program in use. The location \<open>-1\<close> is silently ignored.
  Otherwise the call stores its value when the location is one of the program's and the
  declared type of the uniform is one the call accepts, and raises
  \<open>GL_INVALID_OPERATION\<close> without storing anything when it is not.
\<close>

definition set_uniform ::
  "(uniform_type \<Rightarrow> bool) \<Rightarrow> int \<Rightarrow> 'f uniform \<Rightarrow> 'f gl_state \<Rightarrow> 'f gl_state" where
  "set_uniform accepts location v s =
     (if location = - 1 then s
      else case current_program s of
        None \<Rightarrow> s\<lparr>gl_errors := gl_errors s @ [GL_INVALID_OPERATION]\<rparr>
      | Some p \<Rightarrow>
          if 0 \<le> location \<and> nat location < length (active_uniforms p) \<and>
             accepts (snd (active_uniforms p ! nat location))
          then s\<lparr>uniforms := (uniforms s)(p := (uniforms s p)(nat location := v))\<rparr>
          else s\<lparr>gl_errors := gl_errors s @ [GL_INVALID_OPERATION]\<rparr>)"

text \<open>\<open>glUniform1i\<close> matches \<open>int\<close> and \<open>bool\<close> uniforms, not \<open>uint\<close> ones;
  \<open>glUniformMatrix4fv\<close> (one matrix, not transposed) matches \<open>mat4\<close>.\<close>

definition glUniform1i :: "int \<Rightarrow> int \<Rightarrow> 'f gl_state \<Rightarrow> 'f gl_state" where
  "glUniform1i location v0 = set_uniform (\<lambda>ty. ty = GL_INT \<or> ty = GL_BOOL) location (UInt v0)"

definition glUniformMatrix4fv :: "int \<Rightarrow> 'f mat4 \<Rightarrow> 'f gl_state \<Rightarrow> 'f gl_state" where
  "glUniformMatrix4fv location value = set_uniform (\<lambda>ty. ty = GL_FLOAT_MAT4) location (UMat4 value)"

text \<open>The value a shader of program \<open>p\<close> reads from its uniform \<open>name\<close>.\<close>

definition uniform_value :: "'f gl_state \<Rightarrow> program \<Rightarrow> string \<Rightarrow> 'f uniform" where
  "uniform_value s p name =
     (let l = uniform_location (active_uniforms p) name
      in if l < 0 then UInt 0 else uniforms s p (nat l))"

definition uniform_int :: "'f gl_state \<Rightarrow> program \<Rightarrow> string \<Rightarrow> int" where
  "uniform_int s p name = (case uniform_value s p name of UInt v \<Rightarrow> v | _ \<Rightarrow> 0)"

definition uniform_uint :: "'f gl_state \<Rightarrow> program \<Rightarrow> string \<Rightarrow> nat" where
  "uniform_uint s p name = nat (uniform_int s p name mod 2 ^ 32)"

definition uniform_bool :: "'f gl_state \<Rightarrow> program \<Rightarrow> string \<Rightarrow> bool" where
  "uniform_bool s p name = (uniform_int s p name \<noteq> 0)"

definition uniform_mat4 :: "('f::zero) gl_state \<Rightarrow> program \<Rightarrow> string \<Rightarrow> 'f mat4" where
  "uniform_mat4 s p name =
     (case uniform_value s p name of
        UMat4 m \<Rightarrow> m
      | _ \<Rightarrow> ((0, 0, 0, 0), (0, 0, 0, 0), (0, 0, 0, 0), (0, 0, 0, 0)))"

subsection \<open>Buffers\<close>

definition glUseProgram :: "program \<Rightarrow> 'f gl_state \<Rightarrow> 'f gl_state" where
  "glUseProgram p s = s\<lparr>current_program := Some p\<rparr>"

definition glBindBuffer :: "target \<Rightarrow> buffer \<Rightarrow> 'f gl_state \<Rightarrow> 'f gl_state" where
  "glBindBuffer t b s = s\<lparr>bound := (bound s)(t := Some b)\<rparr>"

definition glBindBufferBase :: "target \<Rightarrow> nat \<Rightarrow> buffer \<Rightarrow> 'f gl_state \<Rightarrow> 'f gl_state" where
  "glBindBufferBase t i b s =
     s\<lparr>bound := (bound s)(t := Some b), indexed := (indexed s)(t := (indexed s t)(i := Some b))\<rparr>"

text \<open>\<open>glBufferSubData(target, offset, sizeof(GLuint), &v)\<close>: one \<open>uint\<close> written at
  a byte offset.\<close>

definition glBufferSubData :: "target \<Rightarrow> nat \<Rightarrow> nat \<Rightarrow> 'f gl_state \<Rightarrow> 'f gl_state" where
  "glBufferSubData t offset v s =
     (case bound s t of
        None \<Rightarrow> s
      | Some b \<Rightarrow>
          s\<lparr>mem := (mem s)\<lparr>cells := (cells (mem s))(b := (cells (mem s) b)(offset div 4 := v))\<rparr>,
            calls := calls s @ [BufferSubData b]\<rparr>)"

text \<open>\<open>glCopyBufferSubData(readTarget, writeTarget, readOffset, writeOffset, size)\<close>,
  offsets and size in bytes, here multiples of \<open>sizeof(GLuint)\<close>.\<close>

definition glCopyBufferSubData ::
  "target \<Rightarrow> target \<Rightarrow> nat \<Rightarrow> nat \<Rightarrow> nat \<Rightarrow> 'f gl_state \<Rightarrow> 'f gl_state" where
  "glCopyBufferSubData rt wt readOffset writeOffset sz s =
     (case (bound s rt, bound s wt) of
        (Some rb, Some wb) \<Rightarrow>
          s\<lparr>mem := (mem s)\<lparr>cells := (cells (mem s))(wb :=
                 (\<lambda>i. if writeOffset div 4 \<le> i \<and> i < writeOffset div 4 + sz div 4
                      then cells (mem s) rb (readOffset div 4 + (i - writeOffset div 4))
                      else cells (mem s) wb i))\<rparr>,
            calls := calls s @ [CopyBufferSubData rb wb readOffset writeOffset sz]\<rparr>
      | _ \<Rightarrow> s)"

text \<open>\<open>glMapBufferRange\<close>, the read of \<open>count_ptr[0]\<close> into \<open>gpu_draw_calls\<close>, and
  \<open>glUnmapBuffer\<close>.\<close>

definition read_counter :: "'f gl_state \<Rightarrow> 'f gl_state" where
  "read_counter s =
     (case bound s GL_ATOMIC_COUNTER_BUFFER of
        None \<Rightarrow> s
      | Some b \<Rightarrow> s\<lparr>gpu_draw_calls := cells (mem s) b 0, calls := calls s @ [MapBufferRange b]\<rparr>)"

definition glMemoryBarrier :: "barrier_bit list \<Rightarrow> 'f gl_state \<Rightarrow> 'f gl_state" where
  "glMemoryBarrier bits s = s\<lparr>calls := calls s @ [MemoryBarrier bits]\<rparr>"

subsection \<open>Dispatch\<close>

text \<open>
  \<open>glDispatchCompute(num_groups, 1, 1)\<close> runs the compute shader of the program in use
  once for each \<open>gl_GlobalInvocationID.x\<close> below \<open>num_groups * local_size_x\<close>. The
  work items run in no fixed order: \<open>order\<close> is the order in which they happen to run
  (\<open>valid_schedule\<close> below says that it lists each of them once). A dispatch with a
  binding missing is undefined in OpenGL and leaves memory as it is here.
\<close>

definition glDispatchCompute ::
  "('f::{plus,times,uminus,zero,one,ord}) scene \<Rightarrow> nat list \<Rightarrow> nat \<Rightarrow> 'f gl_state \<Rightarrow> 'f gl_state" where
  "glDispatchCompute sc order num_groups s =
     (case current_program s of
        Some cull_microbatch_program \<Rightarrow>
          (case (indexed s GL_SHADER_STORAGE_BUFFER 0, indexed s GL_SHADER_STORAGE_BUFFER 1,
                 indexed s GL_ATOMIC_COUNTER_BUFFER 2) of
             (Some instance_ssbo, Some commands, Some visible_count) \<Rightarrow>
               s\<lparr>mem := fold (cull_microbatch_cs
                              (uniform_uint s cull_microbatch_program ''total_element_count'')
                              (uniform_mat4 s cull_microbatch_program ''projection'')
                              (instance_cpu_data sc) commands visible_count)
                           order ((mem s)\<lparr>stores := []\<rparr>),
                 calls := calls s @ [DispatchCompute cull_microbatch_program num_groups]\<rparr>
           | _ \<Rightarrow> s)
      | Some cull_instanced_program \<Rightarrow>
          (case (indexed s GL_SHADER_STORAGE_BUFFER 0, indexed s GL_SHADER_STORAGE_BUFFER 1,
                 indexed s GL_SHADER_STORAGE_BUFFER 2, indexed s GL_ATOMIC_COUNTER_BUFFER 3) of
             (Some instance_ssbo, Some visible_ids, Some command, Some visible_count) \<Rightarrow>
               s\<lparr>mem := fold (cull_instanced_cs
                              (uniform_uint s cull_instanced_program ''total_element_count'')
                              (uniform_mat4 s cull_instanced_program ''projection'')
                              (instance_cpu_data sc) visible_ids command visible_count)
                           order ((mem s)\<lparr>stores := []\<rparr>),
                 calls := calls s @ [DispatchCompute cull_instanced_program num_groups]\<rparr>
           | _ \<Rightarrow> s)
      | _ \<Rightarrow> s)"

subsection \<open>Draws\<close>

definition fetch :: "'a list \<Rightarrow> nat \<Rightarrow> 'a option" where
  "fetch xs i = (if i < length xs then Some (xs ! i) else None)"

text \<open>
  One indirect command executed with the render program: for each instance below
  \<open>instanceCount\<close> and each of the \<open>count\<close> indices from \<open>firstIndex\<close>, the vertex
  \<open>quad_indices[firstIndex + k] + baseVertex\<close> goes through the vertex shader with
  \<open>gl_InstanceID\<close> the instance and \<open>gl_BaseInstance\<close> the command's
  \<open>baseInstance\<close>.
\<close>

definition draw_command ::
  "('f::{plus,times,uminus,zero,one}) scene \<Rightarrow> 'f gl_state \<Rightarrow> DrawElementsIndirectCommand \<Rightarrow>
   'f vertex_out option list list" where
  "draw_command sc s cmd =
     (case (current_program s, indexed s GL_SHADER_STORAGE_BUFFER 0, indexed s GL_SHADER_STORAGE_BUFFER 1) of
        (Some render_program, Some instance_ssbo, Some visible_ids) \<Rightarrow>
          map (\<lambda>gl_InstanceID.
                 map (\<lambda>k. case fetch quad_indices (firstIndex cmd + k) of
                            None \<Rightarrow> None
                          | Some e \<Rightarrow>
                              (case fetch (quad_vertices sc) (e + baseVertex cmd) of
                                 None \<Rightarrow> None
                               | Some a_pos \<Rightarrow>
                                   Some (render_vs
                                     (uniform_mat4 s render_program ''projection'')
                                     (uniform_bool s render_program ''is_instanced_mode'')
                                     (instance_cpu_data sc) (cells (mem s) visible_ids)
                                     a_pos gl_InstanceID (baseInstance cmd))))
                     [0..<count_cmd cmd])
              [0..<instanceCount cmd]
      | _ \<Rightarrow> [])"

text \<open>\<open>glMultiDrawElementsIndirect(GL_TRIANGLES, GL_UNSIGNED_INT, 0, drawcount, 0)\<close>:
  \<open>drawcount\<close> tightly packed commands from the start of the indirect buffer.\<close>

definition glMultiDrawElementsIndirect ::
  "('f::{plus,times,uminus,zero,one}) scene \<Rightarrow> nat \<Rightarrow> 'f gl_state \<Rightarrow> 'f gl_state" where
  "glMultiDrawElementsIndirect sc drawcount s =
     (case bound s GL_DRAW_INDIRECT_BUFFER of
        None \<Rightarrow> s
      | Some ib \<Rightarrow>
          s\<lparr>framebuffer := framebuffer s @
               concat (map (\<lambda>i. draw_command sc s (read_command (cells (mem s) ib) i)) [0..<drawcount]),
            calls := calls s @ [MultiDrawElementsIndirect drawcount]\<rparr>)"

text \<open>\<open>glDrawElementsIndirect(GL_TRIANGLES, GL_UNSIGNED_INT, 0)\<close>: the one command at
  the start of the indirect buffer.\<close>

definition glDrawElementsIndirect ::
  "('f::{plus,times,uminus,zero,one}) scene \<Rightarrow> 'f gl_state \<Rightarrow> 'f gl_state" where
  "glDrawElementsIndirect sc s =
     (case bound s GL_DRAW_INDIRECT_BUFFER of
        None \<Rightarrow> s
      | Some ib \<Rightarrow>
          s\<lparr>framebuffer := framebuffer s @ draw_command sc s (read_command (cells (mem s) ib) 0),
            calls := calls s @ [DrawElementsIndirect (read_command (cells (mem s) ib) 0)]\<rparr>)"

section \<open>The main loop\<close>

text \<open>
  What one iteration takes from outside: the radio button clicked, if any, the value the
  slider was dragged to, if any, and the order in which the work items of the frame's
  dispatch run.
\<close>

record frame_input =
  clicked_mode :: "RenderMode option"
  slider_value :: "int option"
  schedule :: "nat list"

text \<open>
  Modelled from the spec: \<open>ImGui::SliderInt\<close> belongs to the UI library, which is not
  part of the sources. By the spec's config surface it delivers an
  \<open>active_element_count\<close> in \<open>[1000, MAX_ELEMENTS]\<close>: a value the user sets is
  clamped to the bounds passed to the widget, and an untouched slider leaves the
  variable as it is.
\<close>

definition SliderInt :: "int option \<Rightarrow> int \<Rightarrow> int \<Rightarrow> int \<Rightarrow> int" where
  "SliderInt user v v_min v_max =
     (case user of None \<Rightarrow> v | Some u \<Rightarrow> max v_min (min v_max u))"

text \<open>The state when the loop is entered: buffers allocated (the contents of those
  created from \<open>nullptr\<close> are whatever \<open>garbage\<close> says), programs linked with every
  uniform zero, no program in use.\<close>

definition initial_state :: "(buffer \<Rightarrow> nat \<Rightarrow> nat) \<Rightarrow> ('f::zero) gl_state" where
  "initial_state garbage =
     \<lparr>mem = \<lparr>cells = garbage, stores = []\<rparr>,
      bound = (\<lambda>t. None)(GL_SHADER_STORAGE_BUFFER := Some visible_id_ssbo,
                         GL_DRAW_INDIRECT_BUFFER := Some command_buffer,
                         GL_ATOMIC_COUNTER_BUFFER := Some counter_buffer),
      indexed = (\<lambda>t i. None),
      uniforms = (\<lambda>p l. UInt 0),
      current_program = None,
      gl_errors = [],
      framebuffer = [],
      calls = [],
      current_mode = MICRO_BATCH_INDIRECT,
      element_count = 100000,
      gpu_draw_calls = 0\<rparr>"

text \<open>Start of an iteration: \<open>glClear\<close>, then the two radio buttons and the slider.\<close>

definition frame_ui :: "frame_input \<Rightarrow> 'f gl_state \<Rightarrow> 'f gl_state" where
  "frame_ui inp s =
     s\<lparr>framebuffer := [],
       current_mode := (case clicked_mode inp of None \<Rightarrow> current_mode s | Some m \<Rightarrow> m),
       element_count := SliderInt (slider_value inp) (element_count s) 1000 (int MAX_ELEMENTS)\<rparr>"

text \<open>The counter reset that opens culling.\<close>

definition frame_reset :: "'f gl_state \<Rightarrow> 'f gl_state" where
  "frame_reset s =
     run [glBindBuffer GL_ATOMIC_COUNTER_BUFFER counter_buffer,
          glBufferSubData GL_ATOMIC_COUNTER_BUFFER 0 0] s"

definition num_groups_of :: "int \<Rightarrow> nat" where
  "num_groups_of n = nat (((n + 255) sdiv 256) mod 2 ^ 32)"

text \<open>Culling and command generation, up to and including the memory barrier.\<close>

definition frame_dispatch ::
  "('f::{plus,times,uminus,zero,one,ord}) scene \<Rightarrow> frame_input \<Rightarrow> 'f gl_state \<Rightarrow> 'f gl_state" where
  "frame_dispatch sc inp s =
     (let projection = ortho sc;
          num_groups = num_groups_of (element_count s)
      in run
        [glBindBufferBase GL_SHADER_STORAGE_BUFFER 0 instance_ssbo,
         glBindBufferBase GL_ATOMIC_COUNTER_BUFFER
           (if current_mode s = MICRO_BATCH_INDIRECT then 2 else 3) counter_buffer,
         (if current_mode s = MICRO_BATCH_INDIRECT then
            run [glUseProgram cull_microbatch_program,
                 (\<lambda>s. glUniform1i (glGetUniformLocation cull_microbatch_program ''total_element_count'')
                         (element_count s) s),
                 glUniformMatrix4fv (glGetUniformLocation cull_microbatch_program ''projection'') projection,
                 glBindBufferBase GL_SHADER_STORAGE_BUFFER 1 command_buffer,
                 glDispatchCompute sc (schedule inp) num_groups]
          else
            run [glUseProgram cull_instanced_program,
                 (\<lambda>s. glUniform1i (glGetUniformLocation cull_instanced_program ''total_element_count'')
                         (element_count s) s),
                 glUniformMatrix4fv (glGetUniformLocation cull_instanced_program ''projection'') projection,
                 glBindBufferBase GL_SHADER_STORAGE_BUFFER 1 visible_id_ssbo,
                 glBindBufferBase GL_SHADER_STORAGE_BUFFER 2 command_buffer,
                 glDispatchCompute sc (schedule inp) num_groups]),
         glMemoryBarrier
           [GL_COMMAND_BARRIER_BIT, GL_SHADER_STORAGE_BARRIER_BIT, GL_ATOMIC_COUNTER_BARRIER_BIT]] s)"

text \<open>The copy that patches \<open>instanceCount\<close> in instanced mode.\<close>

definition patch_instance_count :: "'f gl_state \<Rightarrow> 'f gl_state" where
  "patch_instance_count s =
     run [glBindBuffer GL_COPY_READ_BUFFER counter_buffer,
          glBindBuffer GL_COPY_WRITE_BUFFER command_buffer,
          glCopyBufferSubData GL_COPY_READ_BUFFER GL_COPY_WRITE_BUFFER 0 4 4] s"

text \<open>Rendering: the render program, its uniforms, and the draw of the active mode.\<close>

definition frame_render ::
  "('f::{plus,times,uminus,zero,one}) scene \<Rightarrow> 'f gl_state \<Rightarrow> 'f gl_state" where
  "frame_render sc s =
     run
       [glUseProgram render_program,
        glUniformMatrix4fv (glGetUniformLocation render_program ''projection'') (ortho sc),
        (if current_mode s = MICRO_BATCH_INDIRECT then
           run [glUniform1i (glGetUniformLocation render_program ''is_instanced_mode'') 0,
                glBindBuffer GL_DRAW_INDIRECT_BUFFER command_buffer,
                glBindBuffer GL_ATOMIC_COUNTER_BUFFER counter_buffer,
                read_counter,
                (\<lambda>s. glMultiDrawElementsIndirect sc (gpu_draw_calls s) s)]
         else
           run [glUniform1i (glGetUniformLocation render_program ''is__instanced_mode'') 1,
                glBindBufferBase GL_SHADER_STORAGE_BUFFER 1 visible_id_ssbo,
                patch_instance_count,
                glBindBuffer GL_DRAW_INDIRECT_BUFFER command_buffer,
                glDrawElementsIndirect sc,
                (\<lambda>s. s\<lparr>gpu_draw_calls := 1\<rparr>)])] s"

text \<open>The overlay and the buffer swap.\<close>

definition frame_present :: "'f gl_state \<Rightarrow> 'f gl_state" where
  "frame_present s = s\<lparr>calls := calls s @ [ImGui_RenderDrawData, SwapBuffers]\<rparr>"

text \<open>One iteration of the \<open>while\<close> loop of \<open>main\<close>.\<close>

definition frame ::
  "('f::{plus,times,uminus,zero,one,ord}) scene \<Rightarrow> frame_input \<Rightarrow> 'f gl_state \<Rightarrow> 'f gl_state" where
  "frame sc inp s =
     frame_present (frame_render sc (frame_dispatch sc inp (frame_reset (frame_ui inp s))))"

fun run_frames ::
  "('f::{plus,times,uminus,zero,one,ord}) scene \<Rightarrow> frame_input list \<Rightarrow> 'f gl_state \<Rightarrow> 'f gl_state" where
  "run_frames sc [] s = s"
| "run_frames sc (inp # inps) s = run_frames sc inps (frame sc inp s)"

text \<open>A schedule is valid for a dispatch when it lists every work item of the dispatch
  once.\<close>

definition valid_schedule :: "nat list \<Rightarrow> int \<Rightarrow> bool" where
  "valid_schedule order n = (mset order = mset [0..<num_groups_of n * local_size_x])"

section \<open>Notions used to state the properties\<close>

text \<open>
  The per-element visibility test as the specification words it: transform the position
  by the projection and keep the element when the clip coordinates \<open>x\<close> and \<open>y\<close>
  both lie in \<open>[-w, w]\<close> (\<open>z\<close> is ignored). This is the reference evaluation the
  shaders are compared with.
\<close>

definition reference_visible :: "('f::{plus,times,uminus,zero,one,ord}) mat4 \<Rightarrow> 'f vec2 \<Rightarrow> bool" where
  "reference_visible projection pos =
     (case mat_mul_vec projection (vec4_of_vec2 pos 0 1) of
        (x, y, z, w) \<Rightarrow> - w \<le> x \<and> x \<le> w \<and> - w \<le> y \<and> y \<le> w)"

text \<open>The elements below \<open>n\<close> that pass the test, in the order given.\<close>

definition visible_order ::
  "nat \<Rightarrow> ('f::{plus,times,uminus,zero,one,ord}) mat4 \<Rightarrow> (nat \<Rightarrow> 'f InstanceData) \<Rightarrow> nat list \<Rightarrow> nat list" where
  "visible_order n P I order = filter (\<lambda>g. g < n \<and> reference_visible P (position (I g))) order"

text \<open>The visible elements among the first \<open>n\<close>, by increasing index.\<close>

definition visible_elements ::
  "nat \<Rightarrow> ('f::{plus,times,uminus,zero,one,ord}) mat4 \<Rightarrow> (nat \<Rightarrow> 'f InstanceData) \<Rightarrow> nat list" where
  "visible_elements n P I = visible_order n P I [0..<n]"

text \<open>
  The culling dispatch of a mode on GPU memory: the mode's compute shader, with the
  buffers the host binds for it, run once for each work item of \<open>order\<close>. The first
  argument is the value of the shader's uniform \<open>total_element_count\<close>.
\<close>

fun cull_dispatch ::
  "RenderMode \<Rightarrow> nat \<Rightarrow> ('f::{plus,times,uminus,zero,one,ord}) mat4 \<Rightarrow> (nat \<Rightarrow> 'f InstanceData) \<Rightarrow>
   nat list \<Rightarrow> gpu_memory \<Rightarrow> gpu_memory" where
  "cull_dispatch MICRO_BATCH_INDIRECT n P I order m =
     fold (cull_microbatch_cs n P I command_buffer counter_buffer) order m"
| "cull_dispatch INSTANCED_INDIRECT n P I order m =
     fold (cull_instanced_cs n P I visible_id_ssbo command_buffer counter_buffer) order m"

fun cull_program :: "RenderMode \<Rightarrow> program" where
  "cull_program MICRO_BATCH_INDIRECT = cull_microbatch_program"
| "cull_program INSTANCED_INDIRECT = cull_instanced_program"

text \<open>The active element count a culling shader works with: the value of its
  uniform \<open>total_element_count\<close>.\<close>

definition count_uniform :: "'f gl_state \<Rightarrow> program \<Rightarrow> nat" where
  "count_uniform s p = uniform_uint s p ''total_element_count''"

text \<open>The value of the atomic counter.\<close>

definition visibility_counter :: "'f gl_state \<Rightarrow> nat" where
  "visibility_counter s = cells (mem s) counter_buffer 0"

text \<open>The range the configuration surface allows for the active element count.\<close>

definition config_ok :: "'f gl_state \<Rightarrow> bool" where
  "config_ok s = (1000 \<le> element_count s \<and> element_count s \<le> int MAX_ELEMENTS)"

text \<open>The state after the culling part of an iteration: counter reset, dispatch and
  barrier.\<close>

definition culled :: "('f::{plus,times,uminus,zero,one,ord}) scene \<Rightarrow> frame_input \<Rightarrow> 'f gl_state \<Rightarrow> 'f gl_state" where
  "culled sc inp s = frame_dispatch sc inp (frame_reset s)"

text \<open>What one drawn quad of element \<open>g\<close> is: for each of the six indices, the
  transformed corner and the element's colour.\<close>

definition element_quad ::
  "('f::{plus,times,uminus,zero,one}) scene \<Rightarrow> nat \<Rightarrow> 'f vertex_out option list" where
  "element_quad sc g =
     map (\<lambda>e. Some (mat_mul_vec (ortho sc)
                     (vec4_of_vec2 (vec2_add (vec2_mul (quad_vertices sc ! e) (size_inst (instance_cpu_data sc g)))
                                             (position (instance_cpu_data sc g))) 0 1),
                   color (instance_cpu_data sc g)))
       quad_indices"

text \<open>The two branches of a culling work item, named for the proofs: the command
  written by a visible element (micro-batch), the shared command written by the first
  work item and the index appended by a visible element (instanced).\<close>

definition emit_command :: "buffer \<Rightarrow> buffer \<Rightarrow> nat \<Rightarrow> gpu_memory \<Rightarrow> gpu_memory" where
  "emit_command commands visible_count gid m =
     (case atomicCounterIncrement visible_count m of (index, m1) \<Rightarrow>
        store commands (5 * index + 4) gid
          (store commands (5 * index + 3) 0
            (store commands (5 * index + 2) 0
              (store commands (5 * index + 1) 1
                (store commands (5 * index) 6 m1)))))"

definition init_command :: "buffer \<Rightarrow> gpu_memory \<Rightarrow> gpu_memory" where
  "init_command command m =
     store command 4 0 (store command 3 0 (store command 2 0 (store command 1 0 (store command 0 6 m))))"

definition emit_visible_id :: "buffer \<Rightarrow> buffer \<Rightarrow> nat \<Rightarrow> gpu_memory \<Rightarrow> gpu_memory" where
  "emit_visible_id visible_ids visible_count gid m =
     (case atomicCounterIncrement visible_count m of (index, m1) \<Rightarrow> store visible_ids index gid m1)"

text \<open>
  What an instanced dispatch that started in memory \<open>m\<close>, ran the work items
  \<open>order\<close> and found the visible elements \<open>vis\<close> (in that order) leaves in
  \<open>m'\<close>: the counter advanced by the number of visible elements, their indices in
  consecutive slots, those slots the only ones of the index buffer stored to, the shared
  command initialised when work item 0 ran, and everything else untouched.
\<close>

definition instanced_inv ::
  "buffer \<Rightarrow> buffer \<Rightarrow> buffer \<Rightarrow> nat list \<Rightarrow> nat list \<Rightarrow> gpu_memory \<Rightarrow> gpu_memory \<Rightarrow> bool" where
  "instanced_inv vid cmd ctr order vis m m' =
    (cells m' ctr 0 = cells m ctr 0 + length vis
    \<and> (\<forall>k < length vis. cells m' vid (cells m ctr 0 + k) = vis ! k)
    \<and> filter (\<lambda>w. fst w = vid) (stores m') =
        filter (\<lambda>w. fst w = vid) (stores m) @ map (\<lambda>k. (vid, cells m ctr 0 + k)) [0..<length vis]
    \<and> (\<forall>w \<in> set (stores m'). w \<in> set (stores m)
          \<or> (fst w = vid \<and> cells m ctr 0 \<le> snd w \<and> snd w < cells m ctr 0 + length vis)
          \<or> (fst w = cmd \<and> snd w < 5))
    \<and> (if 0 \<in> set order
        then read_command (cells m' cmd) 0 =
               \<lparr>count_cmd = 6, instanceCount = 0, firstIndex = 0, baseVertex = 0, baseInstance = 0\<rparr>
        else cells m' cmd = cells m cmd)
    \<and> (\<forall>i. 5 \<le> i \<longrightarrow> cells m' cmd i = cells m cmd i)
    \<and> (\<forall>i. i < cells m ctr 0 \<or> cells m ctr 0 + length vis \<le> i \<longrightarrow> cells m' vid i = cells m vid i)
    \<and> (\<forall>b. b \<noteq> vid \<and> b \<noteq> cmd \<and> b \<noteq> ctr \<longrightarrow> cells m' b = cells m b)
    \<and> (\<forall>i. i \<noteq> 0 \<longrightarrow> cells m' ctr i = cells m ctr i))"

text \<open>The element indices a dispatch selected, read back from its output: the
  \<open>baseInstance\<close> of the commands in the slots below the counter (micro-batch), or
  the entries of the visible-index list below the counter (instanced).\<close>

definition selected_elements :: "RenderMode \<Rightarrow> gpu_memory \<Rightarrow> nat list" where
  "selected_elements mode m =
     (case mode of
        MICRO_BATCH_INDIRECT \<Rightarrow>
          map (\<lambda>k. baseInstance (read_command (cells m command_buffer) k)) [0..<cells m counter_buffer 0]
      | INSTANCED_INDIRECT \<Rightarrow>
          map (\<lambda>k. cells m visible_id_ssbo k) [0..<cells m counter_buffer 0])"

text \<open>The buffer holding the compacted output of a mode, and the cells of its slot
  \<open>k\<close>.\<close>

fun output_buffer :: "RenderMode \<Rightarrow> buffer" where
  "output_buffer MICRO_BATCH_INDIRECT = command_buffer"
| "output_buffer INSTANCED_INDIRECT = visible_id_ssbo"

fun slot_cells :: "RenderMode \<Rightarrow> nat \<Rightarrow> (buffer \<times> nat) list" where
  "slot_cells MICRO_BATCH_INDIRECT k = map (\<lambda>j. (command_buffer, 5 * k + j)) [0, 1, 2, 3, 4]"
| "slot_cells INSTANCED_INDIRECT k = [(visible_id_ssbo, k)]"

text \<open>
  Concrete inputs, used to instantiate the theorems. The scene has the three elements
  of the specification's scenario at indices 0, 1 and 2 (positions \<open>(0,0)\<close>,
  \<open>(2,2)\<close>, \<open>(-0.1,0.1)\<close>), every further element a copy of element 2, the
  orthographic projection of \<open>[-1,1] \<times> [-1,1]\<close>, and exact rational arithmetic.
  A dispatch of one work group runs its 256 work items in decreasing order on a memory
  whose counter is 0. A frame has the slider at 1000 and its 1024 work items in
  decreasing order, and starts from the state the loop is entered in. The input
  \<open>first_input\<close> leaves the slider untouched, so that the count stays at the 100000
  the program starts with, and has the 391 work groups of that count.
\<close>

definition demo_scene :: "rat scene" where
  "demo_scene =
     \<lparr>instance_cpu_data = (\<lambda>i.
        \<lparr>position = (if i = 0 then (0, 0) else if i = 1 then (2, 2) else (- 1 / 10, 1 / 10)),
         size_inst = (1 / 200, 1 / 200),
         color = (if i = 0 then (1, 0, 0, 1) else (0, 1, 0, 1))\<rparr>),
      ortho = ((1, 0, 0, 0), (0, 1, 0, 0), (0, 0, - 1, 0), (0, 0, 0, 1)),
      half = 1 / 2\<rparr>"

definition demo_order :: "nat list" where
  "demo_order = rev [0..<256]"

definition demo_memory :: gpu_memory where
  "demo_memory = \<lparr>cells = (\<lambda>b i. if b = counter_buffer then 0 else 7), stores = []\<rparr>"

definition demo_input :: "RenderMode \<Rightarrow> frame_input" where
  "demo_input m = \<lparr>clicked_mode = Some m, slider_value = Some 1000, schedule = rev [0..<1024]\<rparr>"

definition first_input :: "RenderMode \<Rightarrow> frame_input" where
  "first_input m = \<lparr>clicked_mode = Some m, slider_value = None, schedule = rev [0..<100096]\<rparr>"

definition demo_state :: "RenderMode \<Rightarrow> rat gl_state" where
  "demo_state m = frame_ui (demo_input m) (initial_state (\<lambda>b i. 7))"

text \<open>The states of the specification's per-frame state machine, the state each
  recorded call belongs to, and the sequence the specification gives for a frame.\<close>

datatype phase = ResetCounter | Dispatch | Barrier | PatchInstanceCount | Draw | RenderOverlay | Present

fun phase_of :: "gl_call \<Rightarrow> phase option" where
  "phase_of (BufferSubData b) = (if b = counter_buffer then Some ResetCounter else None)"
| "phase_of (DispatchCompute p n) = Some Dispatch"
| "phase_of (MemoryBarrier bits) = Some Barrier"
| "phase_of (MapBufferRange b) = None"
| "phase_of (CopyBufferSubData rb wb ro wo sz) = Some PatchInstanceCount"
| "phase_of (MultiDrawElementsIndirect n) = Some Draw"
| "phase_of (DrawElementsIndirect c) = Some Draw"
| "phase_of ImGui_RenderDrawData = Some RenderOverlay"
| "phase_of SwapBuffers = Some Present"

fun barrier_of :: "gl_call \<Rightarrow> barrier_bit list option" where
  "barrier_of (MemoryBarrier bits) = Some bits"
| "barrier_of c = None"

definition frame_phases :: "RenderMode \<Rightarrow> phase list" where
  "frame_phases m =
     [ResetCounter, Dispatch, Barrier] @
     (if m = INSTANCED_INDIRECT then [PatchInstanceCount] else []) @
     [Draw, RenderOverlay, Present]"

text \<open>The calls one iteration adds to the trace.\<close>

definition frame_calls ::
  "('f::{plus,times,uminus,zero,one,ord}) scene \<Rightarrow> frame_input \<Rightarrow> 'f gl_state \<Rightarrow> gl_call list" where
  "frame_calls sc inp s = drop (length (calls s)) (calls (frame sc inp s))"

section \<open>Lemmas about the shaders\<close>

lemma cull_microbatch_cs_cases:
  "cull_microbatch_cs n P I cb ctr g m =
     (if g < n \<and> reference_visible P (position (I g)) then emit_command cb ctr g m else m)"
  by (auto simp: cull_microbatch_cs_def reference_visible_def emit_command_def Let_def split: prod.splits)

lemma fold_cull_microbatch:
  "fold (cull_microbatch_cs n P I cb ctr) order m = fold (emit_command cb ctr) (visible_order n P I order) m"
  by (induction order arbitrary: m) (simp_all add: visible_order_def cull_microbatch_cs_cases)

lemma emit_command_cells:
  "cb \<noteq> ctr \<Longrightarrow> cells (emit_command cb ctr g m) =
     (cells m)(ctr := (cells m ctr)(0 := (cells m ctr 0 + 1) mod 2 ^ 32),
               cb := (cells m cb)(5 * cells m ctr 0 := 6, 5 * cells m ctr 0 + 1 := 1,
                                  5 * cells m ctr 0 + 2 := 0, 5 * cells m ctr 0 + 3 := 0,
                                  5 * cells m ctr 0 + 4 := g))"
  by (simp add: emit_command_def atomicCounterIncrement_def store_def fun_upd_twist)

lemma emit_command_stores:
  "stores (emit_command cb ctr g m) =
     stores m @ map (\<lambda>j. (cb, 5 * cells m ctr 0 + j)) [0, 1, 2, 3, 4]"
  by (simp add: emit_command_def atomicCounterIncrement_def store_def)

lemma fold_emit_command:
  assumes "cb \<noteq> ctr" "cells m ctr 0 + length gs < 2 ^ 32"
  shows "cells (fold (emit_command cb ctr) gs m) ctr 0 = cells m ctr 0 + length gs
    \<and> (\<forall>k < length gs. read_command (cells (fold (emit_command cb ctr) gs m) cb) (cells m ctr 0 + k)
          = \<lparr>count_cmd = 6, instanceCount = 1, firstIndex = 0, baseVertex = 0, baseInstance = gs ! k\<rparr>)
    \<and> stores (fold (emit_command cb ctr) gs m) =
        stores m @ concat (map (\<lambda>k. map (\<lambda>j. (cb, 5 * (cells m ctr 0 + k) + j)) [0, 1, 2, 3, 4]) [0..<length gs])
    \<and> (\<forall>i. i < 5 * cells m ctr 0 \<or> 5 * (cells m ctr 0 + length gs) \<le> i \<longrightarrow>
          cells (fold (emit_command cb ctr) gs m) cb i = cells m cb i)
    \<and> (\<forall>b. b \<noteq> cb \<and> b \<noteq> ctr \<longrightarrow> cells (fold (emit_command cb ctr) gs m) b = cells m b)
    \<and> (\<forall>i. i \<noteq> 0 \<longrightarrow> cells (fold (emit_command cb ctr) gs m) ctr i = cells m ctr i)"
  using assms(2)
proof (induction gs rule: rev_induct)
  case Nil
  then show ?case by simp
next
  case (snoc g gs)
  let ?m1 = "fold (emit_command cb ctr) gs m"
  let ?c0 = "cells m ctr 0"
  from snoc.prems have lt: "?c0 + length gs < 2 ^ 32" by simp
  note IH = snoc.IH [OF lt]
  have c1: "cells ?m1 ctr 0 = ?c0 + length gs" using IH by blast
  have nowrap: "Suc (?c0 + length gs) mod 4294967296 = Suc (?c0 + length gs)"
    using snoc.prems by simp
  have cellsE: "cells (fold (emit_command cb ctr) (gs @ [g]) m) =
     (cells ?m1)(ctr := (cells ?m1 ctr)(0 := ?c0 + length gs + 1),
               cb := (cells ?m1 cb)(5 * (?c0 + length gs) := 6, 5 * (?c0 + length gs) + 1 := 1,
                                  5 * (?c0 + length gs) + 2 := 0, 5 * (?c0 + length gs) + 3 := 0,
                                  5 * (?c0 + length gs) + 4 := g))"
    using assms(1) by (simp add: emit_command_cells c1 nowrap)
  have storesE: "stores (fold (emit_command cb ctr) (gs @ [g]) m) =
     stores ?m1 @ map (\<lambda>j. (cb, 5 * (?c0 + length gs) + j)) [0, 1, 2, 3, 4]"
    by (simp add: emit_command_stores c1)
  have A: "cells (fold (emit_command cb ctr) (gs @ [g]) m) ctr 0 = ?c0 + length (gs @ [g])"
    unfolding cellsE using assms(1) by simp
  have B: "\<forall>k < length (gs @ [g]). read_command (cells (fold (emit_command cb ctr) (gs @ [g]) m) cb) (?c0 + k)
          = \<lparr>count_cmd = 6, instanceCount = 1, firstIndex = 0, baseVertex = 0, baseInstance = (gs @ [g]) ! k\<rparr>"
  proof (intro allI impI)
    fix k assume k: "k < length (gs @ [g])"
    show "read_command (cells (fold (emit_command cb ctr) (gs @ [g]) m) cb) (?c0 + k)
          = \<lparr>count_cmd = 6, instanceCount = 1, firstIndex = 0, baseVertex = 0, baseInstance = (gs @ [g]) ! k\<rparr>"
    proof (cases "k < length gs")
      case True
      with IH have "read_command (cells ?m1 cb) (?c0 + k)
          = \<lparr>count_cmd = 6, instanceCount = 1, firstIndex = 0, baseVertex = 0, baseInstance = gs ! k\<rparr>"
        by blast
      moreover have "read_command (cells (fold (emit_command cb ctr) (gs @ [g]) m) cb) (?c0 + k)
         = read_command (cells ?m1 cb) (?c0 + k)"
        using True unfolding cellsE read_command_def by simp
      ultimately show ?thesis using True by (simp add: nth_append)
    next
      case False
      with k have "k = length gs" by simp
      then show ?thesis unfolding cellsE read_command_def by simp
    qed
  qed
  have C: "stores (fold (emit_command cb ctr) (gs @ [g]) m) =
        stores m @ concat (map (\<lambda>k. map (\<lambda>j. (cb, 5 * (?c0 + k) + j)) [0, 1, 2, 3, 4]) [0..<length (gs @ [g])])"
  proof -
    have IHc: "stores ?m1 = stores m @ concat (map (\<lambda>k. map (\<lambda>j. (cb, 5 * (?c0 + k) + j)) [0, 1, 2, 3, 4]) [0..<length gs])"
      using IH by blast
    show ?thesis unfolding storesE IHc by simp
  qed
  have D: "\<forall>i. i < 5 * ?c0 \<or> 5 * (?c0 + length (gs @ [g])) \<le> i \<longrightarrow>
          cells (fold (emit_command cb ctr) (gs @ [g]) m) cb i = cells m cb i"
  proof (intro allI impI)
    fix i assume i: "i < 5 * ?c0 \<or> 5 * (?c0 + length (gs @ [g])) \<le> i"
    have IHd: "\<forall>i. i < 5 * ?c0 \<or> 5 * (?c0 + length gs) \<le> i \<longrightarrow> cells ?m1 cb i = cells m cb i"
      using IH by blast
    from i have "i < 5 * ?c0 \<or> 5 * (?c0 + length gs) \<le> i" by auto
    with IHd have "cells ?m1 cb i = cells m cb i" by blast
    moreover have "cells (fold (emit_command cb ctr) (gs @ [g]) m) cb i = cells ?m1 cb i"
      using i unfolding cellsE by auto
    ultimately show "cells (fold (emit_command cb ctr) (gs @ [g]) m) cb i = cells m cb i" by simp
  qed
  have E: "\<forall>b. b \<noteq> cb \<and> b \<noteq> ctr \<longrightarrow> cells (fold (emit_command cb ctr) (gs @ [g]) m) b = cells m b"
  proof -
    have IHe: "\<forall>b. b \<noteq> cb \<and> b \<noteq> ctr \<longrightarrow> cells ?m1 b = cells m b" using IH by blast
    show ?thesis unfolding cellsE using IHe by simp
  qed
  have F: "\<forall>i. i \<noteq> 0 \<longrightarrow> cells (fold (emit_command cb ctr) (gs @ [g]) m) ctr i = cells m ctr i"
  proof -
    have IHf: "\<forall>i. i \<noteq> 0 \<longrightarrow> cells ?m1 ctr i = cells m ctr i" using IH by blast
    show ?thesis unfolding cellsE using IHf assms(1) by simp
  qed
  from A B C D E F show ?case by blast
qed

lemma cull_instanced_cs_cases:
  "cull_instanced_cs n P I vid cmd ctr g m =
     (if g < n \<and> reference_visible P (position (I g))
      then emit_visible_id vid ctr g (if g = 0 then init_command cmd m else m)
      else (if g = 0 then init_command cmd m else m))"
  by (auto simp: cull_instanced_cs_def reference_visible_def emit_visible_id_def init_command_def Let_def
      split: prod.splits)

lemma init_command_cells:
  "cells (init_command cmd m) = (cells m)(cmd := (cells m cmd)(0 := 6, 1 := 0, 2 := 0, 3 := 0, 4 := 0))"
  by (simp add: init_command_def store_def)

lemma init_command_stores:
  "stores (init_command cmd m) = stores m @ map (\<lambda>j. (cmd, j)) [0, 1, 2, 3, 4]"
  by (simp add: init_command_def store_def)

lemma emit_visible_id_cells:
  "vid \<noteq> ctr \<Longrightarrow> cells (emit_visible_id vid ctr g m) =
     (cells m)(ctr := (cells m ctr)(0 := (cells m ctr 0 + 1) mod 2 ^ 32),
               vid := (cells m vid)(cells m ctr 0 := g))"
  by (simp add: emit_visible_id_def atomicCounterIncrement_def store_def fun_upd_twist)

lemma emit_visible_id_stores:
  "stores (emit_visible_id vid ctr g m) = stores m @ [(vid, cells m ctr 0)]"
  by (simp add: emit_visible_id_def atomicCounterIncrement_def store_def)

lemma instanced_inv_init:
  assumes d: "vid \<noteq> cmd" "cmd \<noteq> ctr" and inv: "instanced_inv vid cmd ctr order vis m m1"
  shows "instanced_inv vid cmd ctr (order @ [0]) vis m (init_command cmd m1)"
  using inv d unfolding instanced_inv_def init_command_cells init_command_stores read_command_def
  by (simp; blast)

lemma instanced_inv_emit:
  assumes d: "vid \<noteq> cmd" "cmd \<noteq> ctr" "vid \<noteq> ctr"
    and inv: "instanced_inv vid cmd ctr order vis m m1"
    and nw: "cells m ctr 0 + length vis + 1 < 2 ^ 32"
  shows "instanced_inv vid cmd ctr order (vis @ [g]) m (emit_visible_id vid ctr g m1)"
proof -
  have c1: "cells m1 ctr 0 = cells m ctr 0 + length vis" using inv unfolding instanced_inv_def by blast
  have nowrap: "Suc (cells m ctr 0 + length vis) mod 4294967296 = Suc (cells m ctr 0 + length vis)"
    using nw by simp
  have cellsE: "cells (emit_visible_id vid ctr g m1) =
     (cells m1)(ctr := (cells m1 ctr)(0 := cells m ctr 0 + length vis + 1),
               vid := (cells m1 vid)(cells m ctr 0 + length vis := g))"
    using d by (simp add: emit_visible_id_cells c1 nowrap)
  have storesE: "stores (emit_visible_id vid ctr g m1) = stores m1 @ [(vid, cells m ctr 0 + length vis)]"
    by (simp add: emit_visible_id_stores c1)
  show ?thesis
    using inv d unfolding instanced_inv_def cellsE storesE read_command_def
    by (auto simp: nth_append)
qed

lemma instanced_inv_refl: "instanced_inv vid cmd ctr [] [] m m"
  by (simp add: instanced_inv_def)

lemma instanced_inv_order:
  "instanced_inv vid cmd ctr order vis m m1 \<Longrightarrow> (0 \<in> set order') = (0 \<in> set order) \<Longrightarrow>
   instanced_inv vid cmd ctr order' vis m m1"
  unfolding instanced_inv_def by simp

lemma fold_cull_instanced:
  assumes d: "vid \<noteq> cmd" "cmd \<noteq> ctr" "vid \<noteq> ctr"
    and nw: "cells m ctr 0 + length (visible_order n P I order) < 2 ^ 32"
  shows "instanced_inv vid cmd ctr order (visible_order n P I order) m
           (fold (cull_instanced_cs n P I vid cmd ctr) order m)"
  using nw
proof (induction order rule: rev_induct)
  case Nil
  show ?case by (simp add: visible_order_def instanced_inv_refl)
next
  case (snoc g gs)
  let ?m1 = "fold (cull_instanced_cs n P I vid cmd ctr) gs m"
  let ?vis = "visible_order n P I gs"
  have len: "length ?vis \<le> length (visible_order n P I (gs @ [g]))"
    by (simp add: visible_order_def)
  with snoc.prems have "cells m ctr 0 + length ?vis < 2 ^ 32" by simp
  then have inv: "instanced_inv vid cmd ctr gs ?vis m ?m1" by (rule snoc.IH)
  let ?m0 = "if g = 0 then init_command cmd ?m1 else ?m1"
  have inv0: "instanced_inv vid cmd ctr (gs @ [g]) ?vis m ?m0"
  proof (cases "g = 0")
    case True
    then show ?thesis using instanced_inv_init [OF d(1) d(2) inv] by simp
  next
    case False
    then show ?thesis using instanced_inv_order [OF inv, of "gs @ [g]"] by simp
  qed
  show ?case
  proof (cases "g < n \<and> reference_visible P (position (I g))")
    case True
    then have vis: "visible_order n P I (gs @ [g]) = ?vis @ [g]" by (simp add: visible_order_def)
    with snoc.prems have "cells m ctr 0 + length ?vis + 1 < 2 ^ 32" by simp
    moreover have "fold (cull_instanced_cs n P I vid cmd ctr) (gs @ [g]) m = emit_visible_id vid ctr g ?m0"
      by (simp only: fold_append fold_simps comp_apply cull_instanced_cs_cases [of n P I vid cmd ctr g] if_P [OF True])
    ultimately show ?thesis using instanced_inv_emit [OF d inv0, of g] vis by simp
  next
    case False
    then have vis: "visible_order n P I (gs @ [g]) = ?vis" by (auto simp add: visible_order_def)
    moreover have "fold (cull_instanced_cs n P I vid cmd ctr) (gs @ [g]) m = ?m0"
      by (simp only: fold_append fold_simps comp_apply cull_instanced_cs_cases [of n P I vid cmd ctr g] if_not_P [OF False])
    ultimately show ?thesis using inv0 by simp
  qed
qed

lemma mset_visible_order:
  assumes "mset order = mset [0..<N]" "n \<le> N"
  shows "mset (visible_order n P I order) = mset (visible_order n P I [0..<n])"
proof -
  let ?p = "\<lambda>g. g < n \<and> reference_visible P (position (I g))"
  have split: "[0..<N] = [0..<n] @ [n..<N]"
    using assms(2) by (metis le_Suc_ex upt_add_eq_append zero_le)
  have empty: "filter ?p [n..<N] = []" by (simp add: filter_empty_conv)
  have "mset (filter ?p order) = filter_mset ?p (mset order)" by simp
  also have "\<dots> = filter_mset ?p (mset [0..<N])" using assms(1) by simp
  also have "\<dots> = mset (filter ?p [0..<N])" by simp
  also have "\<dots> = mset (filter ?p [0..<n])" unfolding split filter_append empty by simp
  finally show ?thesis by (simp add: visible_order_def)
qed

lemma sdiv_nonneg: "0 \<le> (a::int) \<Longrightarrow> a sdiv 256 = a div 256"
  by (cases "a = 0") (simp_all add: signed_divide_int_def)

lemma num_groups_cover:
  assumes "0 \<le> n" "n < 2 ^ 31"
  shows "nat n \<le> num_groups_of n * local_size_x" "num_groups_of n * local_size_x < nat n + 256"
proof -
  have a: "(n + 255) sdiv 256 = (n + 255) div 256" using assms by (simp add: sdiv_nonneg)
  have b: "0 \<le> (n + 255) div 256" "(n + 255) div 256 < 2 ^ 32" using assms by simp_all
  have c: "num_groups_of n = nat ((n + 255) div 256)"
    unfolding num_groups_of_def a using b by simp
  show "nat n \<le> num_groups_of n * local_size_x" unfolding c local_size_x_def using assms by linarith
  show "num_groups_of n * local_size_x < nat n + 256" unfolding c local_size_x_def using assms by linarith
qed

section \<open>Lemmas about a dispatch\<close>

declare cull_dispatch.simps [simp del]

lemma visible_elements_props:
  "distinct (visible_elements n P I)"
  "set (visible_elements n P I) = {i. i < n \<and> reference_visible P (position (I i))}"
  "length (visible_elements n P I) \<le> n"
proof -
  show "distinct (visible_elements n P I)" by (simp add: visible_elements_def visible_order_def)
  show "set (visible_elements n P I) = {i. i < n \<and> reference_visible P (position (I i))}"
    by (auto simp add: visible_elements_def visible_order_def)
  have "length (visible_elements n P I) \<le> length [0..<n]"
    unfolding visible_elements_def visible_order_def by (rule length_filter_le)
  then show "length (visible_elements n P I) \<le> n" by simp
qed

lemma visible_order_props:
  assumes "mset order = mset [0..<N]" and "n \<le> N"
  shows "length (visible_order n P I order) = length (visible_elements n P I)"
    and "distinct (visible_order n P I order)"
    and "set (visible_order n P I order) = set (visible_elements n P I)"
    and "length (visible_order n P I order) \<le> n"
proof -
  have m: "mset (visible_order n P I order) = mset (visible_elements n P I)"
    unfolding visible_elements_def using assms by (rule mset_visible_order)
  show l: "length (visible_order n P I order) = length (visible_elements n P I)"
    using m by (rule mset_eq_length)
  show "distinct (visible_order n P I order)"
    using m visible_elements_props(1) by (metis mset_eq_imp_distinct_iff)
  show "set (visible_order n P I order) = set (visible_elements n P I)"
    using m by (rule mset_eq_setD)
  show "length (visible_order n P I order) \<le> n"
    using l visible_elements_props(3) [of n P I] by simp
qed

lemma dispatch_microbatch:
  assumes sched: "mset order = mset [0..<N]" and le: "n \<le> N" and n: "n < 2 ^ 32"
    and c0: "cells m counter_buffer 0 = 0"
  shows "cells (cull_dispatch MICRO_BATCH_INDIRECT n P I order m) counter_buffer 0 =
           length (visible_order n P I order)"
    and "\<forall>k < length (visible_order n P I order).
           read_command (cells (cull_dispatch MICRO_BATCH_INDIRECT n P I order m) command_buffer) k =
           \<lparr>count_cmd = 6, instanceCount = 1, firstIndex = 0, baseVertex = 0,
            baseInstance = visible_order n P I order ! k\<rparr>"
    and "stores (cull_dispatch MICRO_BATCH_INDIRECT n P I order m) = stores m @
           concat (map (\<lambda>k. map (\<lambda>j. (command_buffer, 5 * k + j)) [0, 1, 2, 3, 4])
                    [0..<length (visible_order n P I order)])"
proof -
  have E: "cull_dispatch MICRO_BATCH_INDIRECT n P I order m =
      fold (emit_command command_buffer counter_buffer) (visible_order n P I order) m"
    by (simp add: cull_dispatch.simps fold_cull_microbatch)
  have "length (visible_order n P I order) < 2 ^ 32"
    using visible_order_props(4) [OF sched le, of P I] n by (rule le_less_trans)
  then have "cells m counter_buffer 0 + length (visible_order n P I order) < 2 ^ 32"
    using c0 by simp
  note F = fold_emit_command [OF _ this, unfolded c0, simplified]
  show "cells (cull_dispatch MICRO_BATCH_INDIRECT n P I order m) counter_buffer 0 =
           length (visible_order n P I order)"
    unfolding E using F by simp
  show "\<forall>k < length (visible_order n P I order).
           read_command (cells (cull_dispatch MICRO_BATCH_INDIRECT n P I order m) command_buffer) k =
           \<lparr>count_cmd = 6, instanceCount = 1, firstIndex = 0, baseVertex = 0,
            baseInstance = visible_order n P I order ! k\<rparr>"
    unfolding E using F by simp
  show "stores (cull_dispatch MICRO_BATCH_INDIRECT n P I order m) = stores m @
           concat (map (\<lambda>k. map (\<lambda>j. (command_buffer, 5 * k + j)) [0, 1, 2, 3, 4])
                    [0..<length (visible_order n P I order)])"
    unfolding E using F by simp
qed

lemma dispatch_instanced:
  assumes sched: "mset order = mset [0..<N]" and le: "n \<le> N" and n: "n < 2 ^ 32"
    and c0: "cells m counter_buffer 0 = 0"
  shows "cells (cull_dispatch INSTANCED_INDIRECT n P I order m) counter_buffer 0 =
           length (visible_order n P I order)"
    and "\<forall>k < length (visible_order n P I order).
           cells (cull_dispatch INSTANCED_INDIRECT n P I order m) visible_id_ssbo k =
           visible_order n P I order ! k"
    and "filter (\<lambda>w. fst w = visible_id_ssbo) (stores (cull_dispatch INSTANCED_INDIRECT n P I order m)) =
           filter (\<lambda>w. fst w = visible_id_ssbo) (stores m) @
           map (\<lambda>k. (visible_id_ssbo, k)) [0..<length (visible_order n P I order)]"
    and "\<forall>w \<in> set (stores (cull_dispatch INSTANCED_INDIRECT n P I order m)). w \<in> set (stores m) \<or>
           (fst w = visible_id_ssbo \<and> snd w < length (visible_order n P I order)) \<or>
           (fst w = command_buffer \<and> snd w < 5)"
proof -
  have "length (visible_order n P I order) < 2 ^ 32"
    using visible_order_props(4) [OF sched le, of P I] n by (rule le_less_trans)
  then have "cells m counter_buffer 0 + length (visible_order n P I order) < 2 ^ 32"
    using c0 by simp
  then have "instanced_inv visible_id_ssbo command_buffer counter_buffer order (visible_order n P I order) m
           (cull_dispatch INSTANCED_INDIRECT n P I order m)"
    unfolding cull_dispatch.simps by (intro fold_cull_instanced) simp_all
  note C = this [unfolded instanced_inv_def c0, simplified]
  show "cells (cull_dispatch INSTANCED_INDIRECT n P I order m) counter_buffer 0 =
           length (visible_order n P I order)"
    using C by blast
  show "\<forall>k < length (visible_order n P I order).
           cells (cull_dispatch INSTANCED_INDIRECT n P I order m) visible_id_ssbo k =
           visible_order n P I order ! k"
    using C by blast
  show "filter (\<lambda>w. fst w = visible_id_ssbo) (stores (cull_dispatch INSTANCED_INDIRECT n P I order m)) =
           filter (\<lambda>w. fst w = visible_id_ssbo) (stores m) @
           map (\<lambda>k. (visible_id_ssbo, k)) [0..<length (visible_order n P I order)]"
    using C by blast
  show "\<forall>w \<in> set (stores (cull_dispatch INSTANCED_INDIRECT n P I order m)). w \<in> set (stores m) \<or>
           (fst w = visible_id_ssbo \<and> snd w < length (visible_order n P I order)) \<or>
           (fst w = command_buffer \<and> snd w < 5)"
    using C by blast
qed

lemma dispatch_counter:
  assumes "mset order = mset [0..<N]" and "n \<le> N" and "n < 2 ^ 32"
    and "cells m counter_buffer 0 = 0"
  shows "cells (cull_dispatch mode n P I order m) counter_buffer 0 = length (visible_elements n P I)"
proof (cases mode)
  case MICRO_BATCH_INDIRECT
  show ?thesis unfolding MICRO_BATCH_INDIRECT dispatch_microbatch(1) [OF assms]
    by (rule visible_order_props(1) [OF assms(1,2)])
next
  case INSTANCED_INDIRECT
  show ?thesis unfolding INSTANCED_INDIRECT dispatch_instanced(1) [OF assms]
    by (rule visible_order_props(1) [OF assms(1,2)])
qed

lemma selected_dispatch:
  assumes "mset order = mset [0..<N]" and "n \<le> N" and "n < 2 ^ 32"
    and "cells m counter_buffer 0 = 0"
  shows "selected_elements mode (cull_dispatch mode n P I order m) = visible_order n P I order"
proof (cases mode)
  case MICRO_BATCH_INDIRECT
  note C = dispatch_microbatch [OF assms, of P I]
  have "map (\<lambda>k. baseInstance (read_command
              (cells (cull_dispatch MICRO_BATCH_INDIRECT n P I order m) command_buffer) k))
           [0..<length (visible_order n P I order)] =
        map (\<lambda>k. visible_order n P I order ! k) [0..<length (visible_order n P I order)]"
    by (rule map_cong) (simp_all add: C(2))
  then show ?thesis
    unfolding MICRO_BATCH_INDIRECT selected_elements_def C(1) by (simp add: map_nth)
next
  case INSTANCED_INDIRECT
  note C = dispatch_instanced [OF assms, of P I]
  have "map (\<lambda>k. cells (cull_dispatch INSTANCED_INDIRECT n P I order m) visible_id_ssbo k)
           [0..<length (visible_order n P I order)] =
        map (\<lambda>k. visible_order n P I order ! k) [0..<length (visible_order n P I order)]"
    by (rule map_cong) (simp_all add: C(2))
  then show ?thesis
    unfolding INSTANCED_INDIRECT selected_elements_def C(1) by (simp add: map_nth)
qed

lemma cull_dispatch_cong:
  assumes "\<forall>i < n. I' i = I i"
  shows "cull_dispatch mode n P I' order m = cull_dispatch mode n P I order m"
proof (cases mode)
  case MICRO_BATCH_INDIRECT
  have "cull_microbatch_cs n P I' command_buffer counter_buffer
      = cull_microbatch_cs n P I command_buffer counter_buffer"
    using assms by (auto simp add: cull_microbatch_cs_cases fun_eq_iff)
  then show ?thesis unfolding MICRO_BATCH_INDIRECT by (simp add: cull_dispatch.simps)
next
  case INSTANCED_INDIRECT
  have "cull_instanced_cs n P I' visible_id_ssbo command_buffer counter_buffer
      = cull_instanced_cs n P I visible_id_ssbo command_buffer counter_buffer"
    using assms by (auto simp add: cull_instanced_cs_cases fun_eq_iff)
  then show ?thesis unfolding INSTANCED_INDIRECT by (simp add: cull_dispatch.simps)
qed

lemma filter_fst_slots_microbatch:
  "filter (\<lambda>w. fst w = command_buffer)
     (concat (map (\<lambda>k. map (\<lambda>j. (command_buffer, 5 * k + j)) [0, 1, 2, 3, 4]) ks)) =
   concat (map (slot_cells MICRO_BATCH_INDIRECT) ks)"
  by (induction ks) simp_all

lemma map_slot_cells_instanced:
  "map (\<lambda>k. (visible_id_ssbo, k)) ks = concat (map (slot_cells INSTANCED_INDIRECT) ks)"
  by (induction ks) simp_all

lemma dispatch_stores:
  assumes "mset order = mset [0..<N]" and "n \<le> N" and "n < 2 ^ 32"
    and "cells m counter_buffer 0 = 0" and "stores m = []"
  shows "filter (\<lambda>w. fst w = output_buffer mode) (stores (cull_dispatch mode n P I order m)) =
           concat (map (slot_cells mode) [0..<cells (cull_dispatch mode n P I order m) counter_buffer 0])"
proof (cases mode)
  case MICRO_BATCH_INDIRECT
  show ?thesis
    unfolding MICRO_BATCH_INDIRECT output_buffer.simps dispatch_microbatch(1) [OF assms(1-4)]
      dispatch_microbatch(3) [OF assms(1-4)] assms(5) append_Nil filter_fst_slots_microbatch ..
next
  case INSTANCED_INDIRECT
  show ?thesis
    unfolding INSTANCED_INDIRECT output_buffer.simps dispatch_instanced(1) [OF assms(1-4)]
      dispatch_instanced(3) [OF assms(1-4)] assms(5) filter.simps append_Nil map_slot_cells_instanced ..
qed

lemma demo_dispatch:
  "mset demo_order = mset [0..<256]" "(3::nat) \<le> 256" "(3::nat) < 2 ^ 32"
  "cells demo_memory counter_buffer 0 = 0" "stores demo_memory = []"
  by (simp_all add: demo_order_def demo_memory_def)

lemma demo_visible:
  "reference_visible (ortho demo_scene) (position (instance_cpu_data demo_scene i)) = (i \<noteq> 1)"
  by (simp add: demo_scene_def reference_visible_def)

lemma demo_visible_elements:
  "visible_elements 3 (ortho demo_scene) (instance_cpu_data demo_scene) = [0, 2]"
proof -
  have "[0..<3] = [0, 1, 2]" by (simp add: upt_rec)
  then show ?thesis by (simp add: visible_elements_def visible_order_def demo_visible)
qed

lemma dispatch_within_capacity:
  assumes "mset order = mset [0..<N]" and "n \<le> N" and "n \<le> MAX_ELEMENTS"
    and "cells m counter_buffer 0 = 0" and "stores m = []"
  shows "\<forall>w \<in> set (stores (cull_dispatch mode n P I order m)). snd w < capacity (fst w)"
proof
  fix w assume w: "w \<in> set (stores (cull_dispatch mode n P I order m))"
  have n: "n < 2 ^ 32" using assms(3) by (simp add: MAX_ELEMENTS_def)
  have le: "length (visible_order n P I order) \<le> MAX_ELEMENTS"
    using visible_order_props(4) [OF assms(1,2), of P I] assms(3) by (rule order_trans)
  show "snd w < capacity (fst w)"
  proof (cases mode)
    case MICRO_BATCH_INDIRECT
    from w have "fst w = command_buffer \<and> snd w < 5 * length (visible_order n P I order)"
      unfolding MICRO_BATCH_INDIRECT dispatch_microbatch(3) [OF assms(1,2) n assms(4)] assms(5)
      by auto
    with le show ?thesis by simp
  next
    case INSTANCED_INDIRECT
    from dispatch_instanced(4) [OF assms(1,2) n assms(4), of P I] w
    have "(fst w = visible_id_ssbo \<and> snd w < length (visible_order n P I order))
        \<or> (fst w = command_buffer \<and> snd w < 5)"
      unfolding INSTANCED_INDIRECT assms(5) by auto
    with le show ?thesis by (auto simp add: MAX_ELEMENTS_def)
  qed
qed

section \<open>Lemmas about the GL calls and the main loop\<close>

lemmas gl_defs = glBindBuffer_def glBindBufferBase_def glBufferSubData_def glUseProgram_def
  glUniform1i_def glUniformMatrix4fv_def set_uniform_def glGetUniformLocation_def
  glMemoryBarrier_def glCopyBufferSubData_def read_counter_def

lemmas uniform_defs = uniform_uint_def uniform_int_def uniform_bool_def uniform_mat4_def
  uniform_value_def count_uniform_def Let_def

lemma frame_reset_eq:
  "frame_reset s = s\<lparr>bound := (bound s)(GL_ATOMIC_COUNTER_BUFFER := Some counter_buffer),
     mem := (mem s)\<lparr>cells := (cells (mem s))(counter_buffer := (cells (mem s) counter_buffer)(0 := 0))\<rparr>,
     calls := calls s @ [BufferSubData counter_buffer]\<rparr>"
  by (simp add: frame_reset_def gl_defs)

lemma culled_mem:
  "mem (culled sc inp s) =
     cull_dispatch (current_mode s) (count_uniform s (cull_program (current_mode s))) (ortho sc)
       (instance_cpu_data sc) (schedule inp) ((mem (frame_reset s))\<lparr>stores := []\<rparr>)"
  by (cases "current_mode s")
     (simp_all add: culled_def frame_reset_eq frame_dispatch_def gl_defs glDispatchCompute_def
        uniform_defs Let_def cull_dispatch.simps)

lemma culled_calls:
  "calls (culled sc inp s) = calls s @
     [BufferSubData counter_buffer,
      DispatchCompute (if current_mode s = MICRO_BATCH_INDIRECT then cull_microbatch_program else cull_instanced_program)
         (num_groups_of (element_count s)),
      MemoryBarrier [GL_COMMAND_BARRIER_BIT, GL_SHADER_STORAGE_BARRIER_BIT, GL_ATOMIC_COUNTER_BARRIER_BIT]]"
  by (simp add: culled_def frame_reset_eq frame_dispatch_def gl_defs glDispatchCompute_def uniform_defs Let_def)

lemma culled_fields:
  "indexed (culled sc inp s) GL_SHADER_STORAGE_BUFFER 0 = Some instance_ssbo"
  "indexed (culled sc inp s) GL_SHADER_STORAGE_BUFFER 1 =
     Some (if current_mode s = MICRO_BATCH_INDIRECT then command_buffer else visible_id_ssbo)"
  "current_mode s = INSTANCED_INDIRECT \<Longrightarrow> indexed (culled sc inp s) GL_SHADER_STORAGE_BUFFER 2 = Some command_buffer"
  "framebuffer (culled sc inp s) = framebuffer s"
  "element_count (culled sc inp s) = element_count s"
  "current_mode (culled sc inp s) = current_mode s"
  "uniforms (culled sc inp s) render_program = uniforms s render_program"
  "count_uniform (culled sc inp s) p = count_uniform s p"
  "gl_errors (culled sc inp s) = gl_errors s @ [GL_INVALID_OPERATION]"
  by (simp_all add: culled_def frame_reset_eq frame_dispatch_def gl_defs glDispatchCompute_def uniform_defs Let_def)

lemma frame_ui_fields:
  "mem (frame_ui inp s) = mem s" "calls (frame_ui inp s) = calls s"
  "uniforms (frame_ui inp s) = uniforms s" "framebuffer (frame_ui inp s) = []"
  "gl_errors (frame_ui inp s) = gl_errors s"
  "current_mode (frame_ui inp s) = (case clicked_mode inp of None \<Rightarrow> current_mode s | Some m \<Rightarrow> m)"
  "element_count (frame_ui inp s) = SliderInt (slider_value inp) (element_count s) 1000 (int MAX_ELEMENTS)"
  by (simp_all add: frame_ui_def)

lemma config_ok_frame_ui: "config_ok s \<Longrightarrow> config_ok (frame_ui inp s)"
  by (auto simp add: config_ok_def frame_ui_def SliderInt_def MAX_ELEMENTS_def split: option.splits)

lemma patch_instance_count_cells:
  "cells (mem (patch_instance_count s)) =
     (cells (mem s))(command_buffer := (cells (mem s) command_buffer)(1 := cells (mem s) counter_buffer 0))"
proof (rule ext, rule ext)
  fix b i
  show "cells (mem (patch_instance_count s)) b i =
     ((cells (mem s))(command_buffer := (cells (mem s) command_buffer)(1 := cells (mem s) counter_buffer 0))) b i"
    by (cases "i = 1") (auto simp add: patch_instance_count_def gl_defs)
qed

lemma patch_instance_count_fields:
  "current_program (patch_instance_count s) = current_program s"
  "indexed (patch_instance_count s) = indexed s"
  "uniforms (patch_instance_count s) = uniforms s"
  "framebuffer (patch_instance_count s) = framebuffer s"
  "element_count (patch_instance_count s) = element_count s"
  "current_mode (patch_instance_count s) = current_mode s"
  "gpu_draw_calls (patch_instance_count s) = gpu_draw_calls s"
  "calls (patch_instance_count s) = calls s @ [CopyBufferSubData counter_buffer command_buffer 0 4 4]"
  "stores (mem (patch_instance_count s)) = stores (mem s)"
  "bound (patch_instance_count s) =
     (bound s)(GL_COPY_READ_BUFFER := Some counter_buffer, GL_COPY_WRITE_BUFFER := Some command_buffer)"
  by (simp_all add: patch_instance_count_def gl_defs)

lemma frame_render_fields:
  "element_count (frame_render sc t) = element_count t"
  "current_mode (frame_render sc t) = current_mode t"
  "bound (frame_render sc t) GL_DRAW_INDIRECT_BUFFER = Some command_buffer"
  "uniform_bool (frame_render sc t) render_program ''is_instanced_mode'' =
     (if current_mode t = MICRO_BATCH_INDIRECT then False
      else uniform_bool t render_program ''is_instanced_mode'')"
  "calls (frame_render sc t) = calls t @
     (if current_mode t = MICRO_BATCH_INDIRECT
      then [MapBufferRange counter_buffer, MultiDrawElementsIndirect (visibility_counter t)]
      else [CopyBufferSubData counter_buffer command_buffer 0 4 4,
            DrawElementsIndirect ((read_command (cells (mem t) command_buffer) 0)
               \<lparr>instanceCount := visibility_counter t\<rparr>)])"
  "count_uniform (frame_render sc t) cull_microbatch_program = count_uniform t cull_microbatch_program"
  "count_uniform (frame_render sc t) cull_instanced_program = count_uniform t cull_instanced_program"
  "current_program (frame_render sc t) = Some render_program"
  "indexed (frame_render sc t) GL_SHADER_STORAGE_BUFFER 0 = indexed t GL_SHADER_STORAGE_BUFFER 0"
  "current_mode t = INSTANCED_INDIRECT \<Longrightarrow>
     indexed (frame_render sc t) GL_SHADER_STORAGE_BUFFER 1 = Some visible_id_ssbo"
  "uniform_mat4 (frame_render sc t) render_program ''projection'' = ortho sc"
  by (simp_all add: frame_render_def gl_defs uniform_defs glMultiDrawElementsIndirect_def
      glDrawElementsIndirect_def patch_instance_count_cells patch_instance_count_fields
      visibility_counter_def read_command_def)

lemma frame_render_cells:
  "cells (mem (frame_render sc t)) =
     (if current_mode t = MICRO_BATCH_INDIRECT then cells (mem t)
      else (cells (mem t))(command_buffer := (cells (mem t) command_buffer)(1 := visibility_counter t)))"
  by (simp add: frame_render_def gl_defs glMultiDrawElementsIndirect_def
      glDrawElementsIndirect_def patch_instance_count_cells patch_instance_count_fields
      visibility_counter_def)

lemma frame_eq: "frame sc inp s = frame_present (frame_render sc (culled sc inp (frame_ui inp s)))"
  by (simp add: frame_def culled_def)

lemma frame_fields:
  "element_count (frame sc inp s) = element_count (frame_ui inp s)"
  "current_mode (frame sc inp s) = current_mode (frame_ui inp s)"
  "uniform_bool (frame sc inp s) render_program ''is_instanced_mode'' =
     (if current_mode (frame_ui inp s) = MICRO_BATCH_INDIRECT then False
      else uniform_bool s render_program ''is_instanced_mode'')"
  "count_uniform (frame sc inp s) cull_microbatch_program = count_uniform s cull_microbatch_program"
  "count_uniform (frame sc inp s) cull_instanced_program = count_uniform s cull_instanced_program"
proof -
  show "element_count (frame sc inp s) = element_count (frame_ui inp s)"
    unfolding frame_eq by (simp add: frame_present_def frame_render_fields culled_fields)
  show "current_mode (frame sc inp s) = current_mode (frame_ui inp s)"
    unfolding frame_eq by (simp add: frame_present_def frame_render_fields culled_fields)
  have "uniform_bool (frame sc inp s) render_program ''is_instanced_mode'' =
        uniform_bool (frame_render sc (culled sc inp (frame_ui inp s))) render_program ''is_instanced_mode''"
    unfolding frame_eq by (simp add: frame_present_def uniform_defs)
  also have "\<dots> = (if current_mode (frame_ui inp s) = MICRO_BATCH_INDIRECT then False
      else uniform_bool (culled sc inp (frame_ui inp s)) render_program ''is_instanced_mode'')"
    by (simp add: frame_render_fields culled_fields)
  also have "uniform_bool (culled sc inp (frame_ui inp s)) render_program ''is_instanced_mode'' =
     uniform_bool s render_program ''is_instanced_mode''"
    by (simp add: uniform_defs culled_fields frame_ui_fields)
  finally show "uniform_bool (frame sc inp s) render_program ''is_instanced_mode'' =
     (if current_mode (frame_ui inp s) = MICRO_BATCH_INDIRECT then False
      else uniform_bool s render_program ''is_instanced_mode'')" .
  have u: "count_uniform (frame_present t) p = count_uniform t p" for t :: "'a gl_state" and p
    by (simp add: frame_present_def uniform_defs)
  have v: "count_uniform (frame_ui inp s) p = count_uniform s p" for p
    by (simp add: uniform_defs frame_ui_fields)
  show "count_uniform (frame sc inp s) cull_microbatch_program = count_uniform s cull_microbatch_program"
    unfolding frame_eq u frame_render_fields culled_fields v ..
  show "count_uniform (frame sc inp s) cull_instanced_program = count_uniform s cull_instanced_program"
    unfolding frame_eq u frame_render_fields culled_fields v ..
qed

lemma config_ok_frame: "config_ok s \<Longrightarrow> config_ok (frame sc inp s)"
  using config_ok_frame_ui [of s inp] by (simp add: config_ok_def frame_fields)

lemma config_ok_run_frames: "config_ok s \<Longrightarrow> config_ok (run_frames sc inps s)"
  by (induction inps arbitrary: s) (simp_all add: config_ok_frame)

lemma config_ok_initial: "config_ok (initial_state g)"
  by (simp add: config_ok_def initial_state_def MAX_ELEMENTS_def)

lemma flag_run_frames:
  "\<not> uniform_bool s render_program ''is_instanced_mode'' \<Longrightarrow>
   \<not> uniform_bool (run_frames sc inps s) render_program ''is_instanced_mode''"
  by (induction inps arbitrary: s) (simp_all add: frame_fields)

lemma flag_initial: "\<not> uniform_bool (initial_state g) render_program ''is_instanced_mode''"
  by (simp add: initial_state_def uniform_defs)

lemma flag_never_set:
  "\<not> uniform_bool (run_frames sc inps (initial_state g)) render_program ''is_instanced_mode''"
  by (rule flag_run_frames) (rule flag_initial)

lemma count_uniform_run_frames:
  "count_uniform (run_frames sc inps s) cull_microbatch_program = count_uniform s cull_microbatch_program"
  "count_uniform (run_frames sc inps s) cull_instanced_program = count_uniform s cull_instanced_program"
  by (induction inps arbitrary: s) (simp_all add: frame_fields)

lemma count_uniform_initial: "count_uniform (initial_state g) p = 0"
  by (simp add: initial_state_def uniform_defs)

lemma count_uniform_zero:
  "count_uniform (run_frames sc inps (initial_state g)) (cull_program mode) = 0"
  by (cases mode) (simp_all add: count_uniform_run_frames count_uniform_initial)

lemma schedule_has_zero:
  assumes "config_ok s" "valid_schedule order (element_count s)"
  shows "0 \<in> set order"
proof -
  have "0 \<le> element_count s" "element_count s < 2 ^ 31"
    using assms(1) by (simp_all add: config_ok_def MAX_ELEMENTS_def)
  then have "nat (element_count s) \<le> num_groups_of (element_count s) * local_size_x"
    by (rule num_groups_cover)
  moreover have "0 < nat (element_count s)" using assms(1) by (simp add: config_ok_def)
  ultimately have "0 < num_groups_of (element_count s) * local_size_x" by linarith
  then have "0 \<in> set [0..<num_groups_of (element_count s) * local_size_x]" by simp
  then show ?thesis using assms(2) unfolding valid_schedule_def by (metis mset_eq_setD)
qed

lemma dispatch_zero:
  "cells (cull_dispatch mode 0 P I order m) counter_buffer = cells m counter_buffer"
  "mode = MICRO_BATCH_INDIRECT \<Longrightarrow> cull_dispatch mode 0 P I order m = m"
proof -
  show "cells (cull_dispatch mode 0 P I order m) counter_buffer = cells m counter_buffer"
  proof (cases mode)
    case MICRO_BATCH_INDIRECT
    show ?thesis unfolding MICRO_BATCH_INDIRECT cull_dispatch.simps
      by (induction order arbitrary: m) (simp_all add: cull_microbatch_cs_cases)
  next
    case INSTANCED_INDIRECT
    show ?thesis unfolding INSTANCED_INDIRECT cull_dispatch.simps
      by (induction order arbitrary: m) (simp_all add: cull_instanced_cs_cases init_command_cells)
  qed
  show "mode = MICRO_BATCH_INDIRECT \<Longrightarrow> cull_dispatch mode 0 P I order m = m"
    by (induction order arbitrary: m) (simp_all add: cull_dispatch.simps cull_microbatch_cs_cases)
qed

lemma cull_instanced_cs_command:
  "visible_ids \<noteq> command \<Longrightarrow> command \<noteq> visible_count \<Longrightarrow>
   cells (cull_instanced_cs n P I visible_ids command visible_count g m) command =
     (if g = 0 then (cells m command)(0 := 6, 1 := 0, 2 := 0, 3 := 0, 4 := 0) else cells m command)"
  by (auto simp add: cull_instanced_cs_cases init_command_cells emit_visible_id_def
      atomicCounterIncrement_def store_def)

lemma dispatch_instanced_command:
  assumes "0 \<in> set order"
  shows "read_command (cells (cull_dispatch INSTANCED_INDIRECT n P I order m) command_buffer) 0 =
           \<lparr>count_cmd = 6, instanceCount = 0, firstIndex = 0, baseVertex = 0, baseInstance = 0\<rparr>"
  using assms unfolding cull_dispatch.simps
proof (induction order rule: rev_induct)
  case Nil
  then show ?case by simp
next
  case (snoc g gs)
  show ?case
  proof (cases "g = 0")
    case True
    then show ?thesis by (simp add: cull_instanced_cs_command read_command_def)
  next
    case False
    with snoc.prems have "0 \<in> set gs" by simp
    then have "read_command (cells (fold (cull_instanced_cs n P I visible_id_ssbo command_buffer counter_buffer) gs m)
        command_buffer) 0 =
        \<lparr>count_cmd = 6, instanceCount = 0, firstIndex = 0, baseVertex = 0, baseInstance = 0\<rparr>"
      by (rule snoc.IH)
    then show ?thesis using False by (simp add: cull_instanced_cs_command read_command_def)
  qed
qed

lemma culled_counter_zero:
  assumes "count_uniform s (cull_program (current_mode s)) = 0"
  shows "visibility_counter (culled sc inp s) = 0"
  unfolding visibility_counter_def culled_mem assms dispatch_zero(1)
  by (simp add: frame_reset_eq)

lemma culled_instanced_command:
  assumes "current_mode s = INSTANCED_INDIRECT" and "0 \<in> set (schedule inp)"
  shows "read_command (cells (mem (culled sc inp s)) command_buffer) 0 =
           \<lparr>count_cmd = 6, instanceCount = 0, firstIndex = 0, baseVertex = 0, baseInstance = 0\<rparr>"
  unfolding culled_mem assms(1) by (rule dispatch_instanced_command [OF assms(2)])

lemma upt_6: "[0..<6] = [0, 1, 2, 3, 4, 5]"
  by (simp add: upt_rec)

lemma draw_command_render:
  assumes "current_program t = Some render_program"
    and "indexed t GL_SHADER_STORAGE_BUFFER 0 = Some instance_ssbo"
    and "indexed t GL_SHADER_STORAGE_BUFFER 1 = Some vb"
    and "uniform_mat4 t render_program ''projection'' = ortho sc"
  shows "draw_command sc t \<lparr>count_cmd = 6, instanceCount = n, firstIndex = 0, baseVertex = 0, baseInstance = b\<rparr> =
     map (\<lambda>i. element_quad sc (if uniform_bool t render_program ''is_instanced_mode''
                               then cells (mem t) vb i else b)) [0..<n]"
  using assms
  by (simp add: draw_command_def upt_6 fetch_def quad_indices_def quad_vertices_def element_quad_def render_vs_def Let_def)




lemma frame_calls_eq:
  "calls (frame sc inp s) = calls s @
     [BufferSubData counter_buffer,
      DispatchCompute (if current_mode (frame_ui inp s) = MICRO_BATCH_INDIRECT
                       then cull_microbatch_program else cull_instanced_program)
         (num_groups_of (element_count (frame_ui inp s))),
      MemoryBarrier [GL_COMMAND_BARRIER_BIT, GL_SHADER_STORAGE_BARRIER_BIT, GL_ATOMIC_COUNTER_BARRIER_BIT]] @
     (if current_mode (frame_ui inp s) = MICRO_BATCH_INDIRECT
      then [MapBufferRange counter_buffer,
            MultiDrawElementsIndirect (visibility_counter (culled sc inp (frame_ui inp s)))]
      else [CopyBufferSubData counter_buffer command_buffer 0 4 4,
            DrawElementsIndirect ((read_command (cells (mem (culled sc inp (frame_ui inp s))) command_buffer) 0)
               \<lparr>instanceCount := visibility_counter (culled sc inp (frame_ui inp s))\<rparr>)]) @
     [ImGui_RenderDrawData, SwapBuffers]"
  unfolding frame_eq
  by (simp add: frame_present_def frame_render_fields culled_calls culled_fields frame_ui_fields)

lemma demo_state_fields:
  "current_mode (demo_state m) = m" "element_count (demo_state m) = 1000"
  "config_ok (demo_state m)"
  by (simp_all add: demo_state_def demo_input_def frame_ui_def SliderInt_def config_ok_def MAX_ELEMENTS_def)

lemma num_groups_of_1000: "num_groups_of 1000 * local_size_x = 1024"
  by (simp add: num_groups_of_def local_size_x_def signed_divide_int_def)

lemma demo_valid_schedule: "valid_schedule (schedule (demo_input m)) (element_count (demo_state m))"
  unfolding demo_state_fields valid_schedule_def num_groups_of_1000
  by (simp only: demo_input_def frame_input.simps mset_rev)

lemma demo_frame_ui: "frame_ui (demo_input m) (initial_state (\<lambda>b i. 7)) = demo_state m"
  by (simp add: demo_state_def)

lemma demo_second_frame:
  "element_count (frame_ui (demo_input m) s) = 1000"
  "current_mode (frame_ui (demo_input m) s) = m"
  by (simp_all add: frame_ui_fields demo_input_def SliderInt_def MAX_ELEMENTS_def)

lemma demo_valid_schedule': "valid_schedule (schedule (demo_input m)) (element_count (frame_ui (demo_input m) s))"
  unfolding demo_second_frame(1) valid_schedule_def num_groups_of_1000
  by (simp only: demo_input_def frame_input.simps mset_rev)

lemma demo_counter_zero:
  "visibility_counter (culled demo_scene (demo_input m) (demo_state m)) = 0"
  by (rule culled_counter_zero)
     (simp add: demo_state_def uniform_defs frame_ui_fields initial_state_def)

lemma first_input_fields:
  "element_count (frame_ui (first_input m) (initial_state g)) = 100000"
  "current_mode (frame_ui (first_input m) (initial_state g)) = m"
  by (simp_all add: frame_ui_fields first_input_def SliderInt_def initial_state_def)

section \<open>The claims\<close>

text \<open>
  C1 (the code departs from it). The host asks for the location of
  \<open>is__instanced_mode\<close>, a name the render program does not have, gets \<open>-1\<close>, and the
  \<open>glUniform1i\<close> that should set the flag to 1 is ignored. After the first
  instanced-mode frame from the state the loop starts in, the uniform
  \<open>is_instanced_mode\<close> is still false, and with the program, uniforms and bindings as
  that frame's draw had them, a draw of two instances yields the quad of element 0
  twice: the vertex stage resolves the element from \<open>baseInstance\<close>, not from the
  visible-index list.
\<close>

theorem instanced_flag_not_set:
  "glGetUniformLocation render_program ''is__instanced_mode'' = - 1
 \<and> glGetUniformLocation render_program ''is_instanced_mode'' = 1
 \<and> \<not> uniform_bool (frame demo_scene (demo_input INSTANCED_INDIRECT) (initial_state (\<lambda>b i. 7)))
        render_program ''is_instanced_mode''
 \<and> draw_command demo_scene (frame demo_scene (demo_input INSTANCED_INDIRECT) (initial_state (\<lambda>b i. 7)))
      \<lparr>count_cmd = 6, instanceCount = 2, firstIndex = 0, baseVertex = 0, baseInstance = 0\<rparr> =
     [element_quad demo_scene 0, element_quad demo_scene 0]"
proof -
  let ?S = "frame demo_scene (demo_input INSTANCED_INDIRECT) (initial_state (\<lambda>b i. 7))"
  let ?t = "culled demo_scene (demo_input INSTANCED_INDIRECT) (demo_state INSTANCED_INDIRECT)"
  have flag: "\<not> uniform_bool (run_frames demo_scene [demo_input INSTANCED_INDIRECT] (initial_state (\<lambda>b i. 7)))
        render_program ''is_instanced_mode''"
    by (rule flag_never_set)
  then have flag': "uniform_bool ?S render_program ''is_instanced_mode'' = False" by simp
  have m: "current_mode ?t = INSTANCED_INDIRECT" by (simp add: culled_fields demo_state_fields)
  have S: "current_program ?S = Some render_program"
    "indexed ?S GL_SHADER_STORAGE_BUFFER 0 = Some instance_ssbo"
    "indexed ?S GL_SHADER_STORAGE_BUFFER 1 = Some visible_id_ssbo"
    "uniform_mat4 ?S render_program ''projection'' = ortho demo_scene"
  proof -
    have p: "current_program (frame_present t) = current_program t"
      "indexed (frame_present t) = indexed t"
      "uniform_mat4 (frame_present t) render_program ''projection'' = uniform_mat4 t render_program ''projection''"
      for t :: "rat gl_state"
      by (simp_all add: frame_present_def uniform_defs)
    show "current_program ?S = Some render_program"
      unfolding frame_eq demo_frame_ui p by (rule frame_render_fields(8))
    show "indexed ?S GL_SHADER_STORAGE_BUFFER 0 = Some instance_ssbo"
      unfolding frame_eq demo_frame_ui p frame_render_fields(9) by (rule culled_fields(1))
    show "indexed ?S GL_SHADER_STORAGE_BUFFER 1 = Some visible_id_ssbo"
      unfolding frame_eq demo_frame_ui p by (rule frame_render_fields(10) [OF m])
    show "uniform_mat4 ?S render_program ''projection'' = ortho demo_scene"
      unfolding frame_eq demo_frame_ui p by (rule frame_render_fields(11))
  qed
  have "[0..<2] = [0, 1]" by (simp add: upt_rec)
  then have "draw_command demo_scene ?S
      \<lparr>count_cmd = 6, instanceCount = 2, firstIndex = 0, baseVertex = 0, baseInstance = 0\<rparr> =
     [element_quad demo_scene 0, element_quad demo_scene 0]"
    unfolding draw_command_render [OF S] flag' by simp
  with flag show ?thesis by (simp add: glGetUniformLocation_def)
qed



text \<open>
  C3. In both culling variants, for any order in which the work items of a dispatch run
  and any value \<open>n\<close> of the shader's active element count (its uniform
  \<open>total_element_count\<close>): after a dispatch that starts with the counter at 0, an
  element index is among the selected ones (the \<open>baseInstance\<close> of a command in a slot
  below the counter in micro-batch mode, an entry of the visible-index list below the
  counter in instanced mode) exactly when it is below \<open>n\<close> and its position,
  transformed by the projection, has clip \<open>x\<close> and \<open>y\<close> in \<open>[-w, w]\<close>, bounds
  included: the reference test. Elements at or beyond \<open>n\<close> are never tested: changing
  their data changes nothing in what the dispatch leaves in memory.
\<close>

theorem visibility_correct:
  assumes "mset order = mset [0..<N]" and "n \<le> N" and "n < 2 ^ 32"
    and "cells m counter_buffer 0 = 0"
  shows "(\<forall>i. i \<in> set (selected_elements mode (cull_dispatch mode n P I order m)) \<longleftrightarrow>
            i < n \<and> reference_visible P (position (I i)))
       \<and> ((\<forall>i < n. I' i = I i) \<longrightarrow>
            cull_dispatch mode n P I' order m = cull_dispatch mode n P I order m)"
proof -
  have "set (selected_elements mode (cull_dispatch mode n P I order m)) = set (visible_elements n P I)"
    unfolding selected_dispatch [OF assms] by (rule visible_order_props(3) [OF assms(1,2)])
  then show ?thesis
    using cull_dispatch_cong [of n I' I mode P order m] by (simp add: visible_elements_props(2))
qed

theorem visibility_correct_witness:
  "0 \<in> set (selected_elements MICRO_BATCH_INDIRECT (cull_dispatch MICRO_BATCH_INDIRECT 3
        (ortho demo_scene) (instance_cpu_data demo_scene) demo_order demo_memory))
 \<and> 1 \<notin> set (selected_elements MICRO_BATCH_INDIRECT (cull_dispatch MICRO_BATCH_INDIRECT 3
        (ortho demo_scene) (instance_cpu_data demo_scene) demo_order demo_memory))
 \<and> 2 \<in> set (selected_elements INSTANCED_INDIRECT (cull_dispatch INSTANCED_INDIRECT 3
        (ortho demo_scene) (instance_cpu_data demo_scene) demo_order demo_memory))
 \<and> 3 \<notin> set (selected_elements INSTANCED_INDIRECT (cull_dispatch INSTANCED_INDIRECT 3
        (ortho demo_scene) (instance_cpu_data demo_scene) demo_order demo_memory))"
  using visibility_correct [OF demo_dispatch(1-4), of MICRO_BATCH_INDIRECT "ortho demo_scene"
      "instance_cpu_data demo_scene" "instance_cpu_data demo_scene"]
    visibility_correct [OF demo_dispatch(1-4), of INSTANCED_INDIRECT "ortho demo_scene"
      "instance_cpu_data demo_scene" "instance_cpu_data demo_scene"]
  by (simp add: demo_visible)

text \<open>
  C4. In every frame the counter is 0 after the reset, the reset precedes the dispatch,
  and the culling the frame does is the dispatch of the mode's shader on the memory the
  reset left. For such a dispatch, in both variants, with any active element count
  \<open>n\<close> of the shader and any order of the work items: the counter ends at the number
  of visible elements below \<open>n\<close>; the stores into the output array (the cells of the
  command slots in micro-batch mode, the entries of the visible-index list in instanced
  mode) are, in order and once each, exactly those of the slots \<open>0\<close> \<dots>
  \<open>finalCount - 1\<close>; and the elements found in those slots are pairwise distinct and
  are the visible elements.
\<close>

theorem compaction_complete:
  assumes "mset order = mset [0..<N]" and "n \<le> N" and "n < 2 ^ 32"
    and "cells m counter_buffer 0 = 0" and "stores m = []"
  shows "visibility_counter (frame_reset s) = 0
       \<and> calls (culled sc inp s) = calls s @
           [BufferSubData counter_buffer,
            DispatchCompute (if current_mode s = MICRO_BATCH_INDIRECT then cull_microbatch_program
                             else cull_instanced_program) (num_groups_of (element_count s)),
            MemoryBarrier [GL_COMMAND_BARRIER_BIT, GL_SHADER_STORAGE_BARRIER_BIT, GL_ATOMIC_COUNTER_BARRIER_BIT]]
       \<and> mem (culled sc inp s) =
           cull_dispatch (current_mode s) (count_uniform s (cull_program (current_mode s))) (ortho sc)
             (instance_cpu_data sc) (schedule inp) ((mem (frame_reset s))\<lparr>stores := []\<rparr>)
       \<and> cells (cull_dispatch mode n P I order m) counter_buffer 0 = length (visible_elements n P I)
       \<and> filter (\<lambda>w. fst w = output_buffer mode) (stores (cull_dispatch mode n P I order m)) =
           concat (map (slot_cells mode) [0..<cells (cull_dispatch mode n P I order m) counter_buffer 0])
       \<and> distinct (selected_elements mode (cull_dispatch mode n P I order m))
       \<and> set (selected_elements mode (cull_dispatch mode n P I order m)) = set (visible_elements n P I)"
proof -
  have "visibility_counter (frame_reset s) = 0"
    by (simp add: frame_reset_eq visibility_counter_def)
  moreover note culled_calls [of sc inp s] culled_mem [of sc inp s]
    dispatch_counter [OF assms(1-4), of mode P I] dispatch_stores [OF assms, of mode P I]
  moreover have "distinct (selected_elements mode (cull_dispatch mode n P I order m))"
    unfolding selected_dispatch [OF assms(1-4)] by (rule visible_order_props(2) [OF assms(1,2)])
  moreover have "set (selected_elements mode (cull_dispatch mode n P I order m)) = set (visible_elements n P I)"
    unfolding selected_dispatch [OF assms(1-4)] by (rule visible_order_props(3) [OF assms(1,2)])
  ultimately show ?thesis by (intro conjI)
qed

theorem compaction_complete_witness:
  "visibility_counter (frame_reset (demo_state MICRO_BATCH_INDIRECT)) = 0
 \<and> cells (cull_dispatch MICRO_BATCH_INDIRECT 3 (ortho demo_scene) (instance_cpu_data demo_scene)
      demo_order demo_memory) counter_buffer 0 = 2
 \<and> cells (cull_dispatch INSTANCED_INDIRECT 3 (ortho demo_scene) (instance_cpu_data demo_scene)
      demo_order demo_memory) counter_buffer 0 = 2
 \<and> filter (\<lambda>w. fst w = visible_id_ssbo)
      (stores (cull_dispatch INSTANCED_INDIRECT 3 (ortho demo_scene) (instance_cpu_data demo_scene)
         demo_order demo_memory)) =
    concat (map (slot_cells INSTANCED_INDIRECT) [0..<2])
 \<and> filter (\<lambda>w. fst w = command_buffer)
      (stores (cull_dispatch MICRO_BATCH_INDIRECT 3 (ortho demo_scene) (instance_cpu_data demo_scene)
         demo_order demo_memory)) =
    concat (map (slot_cells MICRO_BATCH_INDIRECT) [0..<2])
 \<and> distinct (selected_elements INSTANCED_INDIRECT
      (cull_dispatch INSTANCED_INDIRECT 3 (ortho demo_scene) (instance_cpu_data demo_scene)
         demo_order demo_memory))"
proof -
  have two: "length (visible_elements 3 (ortho demo_scene) (instance_cpu_data demo_scene)) = 2"
    by (simp add: demo_visible_elements)
  note M = compaction_complete [OF demo_dispatch, of "demo_state MICRO_BATCH_INDIRECT" demo_scene
      "demo_input MICRO_BATCH_INDIRECT" MICRO_BATCH_INDIRECT "ortho demo_scene" "instance_cpu_data demo_scene",
      unfolded two output_buffer.simps]
  note I = compaction_complete [OF demo_dispatch, of "demo_state MICRO_BATCH_INDIRECT" demo_scene
      "demo_input MICRO_BATCH_INDIRECT" INSTANCED_INDIRECT "ortho demo_scene" "instance_cpu_data demo_scene",
      unfolded two output_buffer.simps]
  note m = M [THEN conjunct2, THEN conjunct2, THEN conjunct2, THEN conjunct1]
  note i = I [THEN conjunct2, THEN conjunct2, THEN conjunct2, THEN conjunct1]
  note Mst = M [THEN conjunct2, THEN conjunct2, THEN conjunct2, THEN conjunct2, THEN conjunct1, unfolded m]
  note Ist = I [THEN conjunct2, THEN conjunct2, THEN conjunct2, THEN conjunct2, THEN conjunct1, unfolded i]
  note Id = I [THEN conjunct2, THEN conjunct2, THEN conjunct2, THEN conjunct2, THEN conjunct2, THEN conjunct1]
  show ?thesis
    by (intro conjI) (rule M [THEN conjunct1], rule m, rule i, rule Ist, rule Mst, rule Id)
qed

text \<open>
  C5. In a micro-batch dispatch with active element count \<open>n\<close>, every visible element
  below \<open>n\<close> has a command \<open>{6, 1, 0, 0, element index}\<close> in a slot below the final
  count, every slot below the final count holds such a command of a visible element, and
  a single work item of a visible element writes exactly that record at the slot its
  atomic increment returned.
\<close>

theorem microbatch_command_fields:
  assumes "mset order = mset [0..<N]" and "n \<le> N" and "n < 2 ^ 32"
    and "cells m counter_buffer 0 = 0"
  shows "(\<forall>g. g < n \<and> reference_visible P (position (I g)) \<longrightarrow>
            (\<exists>k < cells (cull_dispatch MICRO_BATCH_INDIRECT n P I order m) counter_buffer 0.
               read_command (cells (cull_dispatch MICRO_BATCH_INDIRECT n P I order m) command_buffer) k =
               \<lparr>count_cmd = 6, instanceCount = 1, firstIndex = 0, baseVertex = 0, baseInstance = g\<rparr>))
       \<and> (\<forall>k < cells (cull_dispatch MICRO_BATCH_INDIRECT n P I order m) counter_buffer 0.
            \<exists>g. g < n \<and> reference_visible P (position (I g)) \<and>
               read_command (cells (cull_dispatch MICRO_BATCH_INDIRECT n P I order m) command_buffer) k =
               \<lparr>count_cmd = 6, instanceCount = 1, firstIndex = 0, baseVertex = 0, baseInstance = g\<rparr>)
       \<and> (\<forall>g m commands visible_count.
            commands \<noteq> visible_count \<and> g < n \<and> reference_visible P (position (I g)) \<longrightarrow>
            read_command (cells (cull_microbatch_cs n P I commands visible_count g m) commands)
               (cells m visible_count 0) =
            \<lparr>count_cmd = 6, instanceCount = 1, firstIndex = 0, baseVertex = 0, baseInstance = g\<rparr>)"
proof -
  let ?m' = "cull_dispatch MICRO_BATCH_INDIRECT n P I order m"
  let ?vis = "visible_order n P I order"
  note C = dispatch_microbatch [OF assms, of P I]
  have vis: "set ?vis = {i. i < n \<and> reference_visible P (position (I i))}"
    unfolding visible_order_props(3) [OF assms(1,2)] by (rule visible_elements_props(2))
  have A: "\<exists>k < cells ?m' counter_buffer 0. read_command (cells ?m' command_buffer) k =
               \<lparr>count_cmd = 6, instanceCount = 1, firstIndex = 0, baseVertex = 0, baseInstance = g\<rparr>"
    if "g < n \<and> reference_visible P (position (I g))" for g
  proof -
    from that vis have "g \<in> set ?vis" by simp
    then obtain k where "k < length ?vis" "?vis ! k = g"
      by (auto simp add: in_set_conv_nth)
    with C(1) C(2) show ?thesis by auto
  qed
  have B: "\<exists>g. g < n \<and> reference_visible P (position (I g)) \<and>
               read_command (cells ?m' command_buffer) k =
               \<lparr>count_cmd = 6, instanceCount = 1, firstIndex = 0, baseVertex = 0, baseInstance = g\<rparr>"
    if "k < cells ?m' counter_buffer 0" for k
  proof -
    from that C(1) have k: "k < length ?vis" by simp
    then have "?vis ! k \<in> set ?vis" by simp
    with vis have "?vis ! k < n \<and> reference_visible P (position (I (?vis ! k)))" by simp
    with C(2) k show ?thesis by blast
  qed
  have D: "read_command (cells (cull_microbatch_cs n P I commands visible_count g m) commands)
               (cells m visible_count 0) =
            \<lparr>count_cmd = 6, instanceCount = 1, firstIndex = 0, baseVertex = 0, baseInstance = g\<rparr>"
    if "commands \<noteq> visible_count \<and> g < n \<and> reference_visible P (position (I g))"
    for g m commands visible_count
    using that by (simp add: cull_microbatch_cs_cases emit_command_cells read_command_def)
  from A B D show ?thesis by blast
qed

theorem microbatch_command_fields_witness:
  "(\<exists>k < 2. read_command (cells (cull_dispatch MICRO_BATCH_INDIRECT 3 (ortho demo_scene)
        (instance_cpu_data demo_scene) demo_order demo_memory) command_buffer) k =
       \<lparr>count_cmd = 6, instanceCount = 1, firstIndex = 0, baseVertex = 0, baseInstance = 2\<rparr>)
 \<and> read_command (cells (cull_microbatch_cs 3 (ortho demo_scene) (instance_cpu_data demo_scene)
        command_buffer counter_buffer 2 demo_memory) command_buffer) 0 =
       \<lparr>count_cmd = 6, instanceCount = 1, firstIndex = 0, baseVertex = 0, baseInstance = 2\<rparr>"
proof -
  note T = microbatch_command_fields [OF demo_dispatch(1-4), of "ortho demo_scene" "instance_cpu_data demo_scene"]
  have n: "cells (cull_dispatch MICRO_BATCH_INDIRECT 3 (ortho demo_scene)
        (instance_cpu_data demo_scene) demo_order demo_memory) counter_buffer 0 = 2"
    using dispatch_counter [OF demo_dispatch(1-4), of MICRO_BATCH_INDIRECT "ortho demo_scene" "instance_cpu_data demo_scene"]
    by (simp add: demo_visible_elements)
  have v: "(2::nat) < 3 \<and> reference_visible (ortho demo_scene) (position (instance_cpu_data demo_scene 2))"
    by (simp add: demo_visible)
  note A = T [THEN conjunct1, THEN spec [where x = 2], THEN mp, OF v, unfolded n]
  have w: "command_buffer \<noteq> counter_buffer \<and> (2::nat) < 3 \<and>
       reference_visible (ortho demo_scene) (position (instance_cpu_data demo_scene 2))"
    by (simp add: demo_visible)
  note B = T [THEN conjunct2, THEN conjunct2, THEN spec [where x = 2],
      THEN spec [where x = demo_memory],
      THEN spec [where x = command_buffer], THEN spec [where x = counter_buffer], THEN mp, OF w,
      unfolded demo_dispatch(4)]
  from A B show ?thesis by (rule conjI)
qed

text \<open>
  C6. For the same instance data, projection and active element count \<open>n\<close>, whatever
  the two schedules and the contents of memory the dispatches start from (the counter
  reset apart), the counter after a micro-batch dispatch equals the counter after an
  instanced dispatch, and both equal the number of elements below \<open>n\<close> that pass the
  reference visibility test.
\<close>

theorem count_conservation:
  assumes "mset order1 = mset [0..<N1]" and "n \<le> N1"
    and "mset order2 = mset [0..<N2]" and "n \<le> N2" and "n < 2 ^ 32"
    and "cells m1 counter_buffer 0 = 0" and "cells m2 counter_buffer 0 = 0"
  shows "cells (cull_dispatch MICRO_BATCH_INDIRECT n P I order1 m1) counter_buffer 0 =
         cells (cull_dispatch INSTANCED_INDIRECT n P I order2 m2) counter_buffer 0
       \<and> cells (cull_dispatch MICRO_BATCH_INDIRECT n P I order1 m1) counter_buffer 0 =
           length (filter (\<lambda>i. reference_visible P (position (I i))) [0..<n])"
proof -
  have "visible_elements n P I = filter (\<lambda>i. reference_visible P (position (I i))) [0..<n]"
    unfolding visible_elements_def visible_order_def by (rule filter_cong) auto
  then show ?thesis
    using dispatch_counter [OF assms(1,2,5,6), of MICRO_BATCH_INDIRECT P I]
      dispatch_counter [OF assms(3,4,5,7), of INSTANCED_INDIRECT P I] by simp
qed

theorem count_conservation_witness:
  "cells (cull_dispatch MICRO_BATCH_INDIRECT 3 (ortho demo_scene) (instance_cpu_data demo_scene)
      demo_order demo_memory) counter_buffer 0 =
   cells (cull_dispatch INSTANCED_INDIRECT 3 (ortho demo_scene) (instance_cpu_data demo_scene)
      [0..<256] demo_memory) counter_buffer 0
 \<and> cells (cull_dispatch MICRO_BATCH_INDIRECT 3 (ortho demo_scene) (instance_cpu_data demo_scene)
      demo_order demo_memory) counter_buffer 0 = 2"
proof -
  have "visible_elements 3 (ortho demo_scene) (instance_cpu_data demo_scene) =
      filter (\<lambda>i. reference_visible (ortho demo_scene) (position (instance_cpu_data demo_scene i))) [0..<3]"
    unfolding visible_elements_def visible_order_def by (rule filter_cong) auto
  then have two: "length (filter (\<lambda>i. reference_visible (ortho demo_scene)
      (position (instance_cpu_data demo_scene i))) [0..<3]) = 2"
    unfolding demo_visible_elements by (metis length_Cons list.size(3) numeral_2_eq_2)
  show ?thesis
    using count_conservation [OF demo_dispatch(1,2) refl demo_dispatch(2,3,4,4),
        of "ortho demo_scene" "instance_cpu_data demo_scene"]
    unfolding two .
qed

text \<open>
  C7. In an instanced-mode frame the copy that follows the barrier and precedes the draw
  changes one cell of the command buffer, the \<open>instanceCount\<close> of the shared command,
  to the counter's final value; the other four fields keep what work item 0 wrote, so
  the command the draw reads is \<open>{6, finalCount, 0, 0, 0}\<close>, \<open>finalCount\<close> being the
  value of the counter after culling.
\<close>

theorem instance_count_patch:
  assumes "current_mode (frame_ui inp s) = INSTANCED_INDIRECT" and "config_ok s"
    and "valid_schedule (schedule inp) (element_count (frame_ui inp s))"
  shows "frame_calls sc inp s =
           [BufferSubData counter_buffer,
            DispatchCompute cull_instanced_program (num_groups_of (element_count (frame_ui inp s))),
            MemoryBarrier [GL_COMMAND_BARRIER_BIT, GL_SHADER_STORAGE_BARRIER_BIT, GL_ATOMIC_COUNTER_BARRIER_BIT],
            CopyBufferSubData counter_buffer command_buffer 0 4 4,
            DrawElementsIndirect
              \<lparr>count_cmd = 6,
               instanceCount = visibility_counter (culled sc inp (frame_ui inp s)),
               firstIndex = 0, baseVertex = 0, baseInstance = 0\<rparr>,
            ImGui_RenderDrawData, SwapBuffers]
       \<and> read_command (cells (mem (culled sc inp (frame_ui inp s))) command_buffer) 0 =
           \<lparr>count_cmd = 6, instanceCount = 0, firstIndex = 0, baseVertex = 0, baseInstance = 0\<rparr>
       \<and> cells (mem (patch_instance_count (culled sc inp (frame_ui inp s)))) =
           (cells (mem (culled sc inp (frame_ui inp s))))
             (command_buffer := (cells (mem (culled sc inp (frame_ui inp s))) command_buffer)
                (1 := visibility_counter (culled sc inp (frame_ui inp s))))
       \<and> cells (mem (frame sc inp s)) = cells (mem (patch_instance_count (culled sc inp (frame_ui inp s))))"
proof -
  let ?s1 = "frame_ui inp s"
  have ok: "config_ok ?s1" using assms(2) by (rule config_ok_frame_ui)
  have z: "0 \<in> set (schedule inp)" using ok assms(3) by (rule schedule_has_zero)
  note C = culled_instanced_command [OF assms(1) z, of sc]
  have A: "frame_calls sc inp s =
           [BufferSubData counter_buffer,
            DispatchCompute cull_instanced_program (num_groups_of (element_count ?s1)),
            MemoryBarrier [GL_COMMAND_BARRIER_BIT, GL_SHADER_STORAGE_BARRIER_BIT, GL_ATOMIC_COUNTER_BARRIER_BIT],
            CopyBufferSubData counter_buffer command_buffer 0 4 4,
            DrawElementsIndirect
              \<lparr>count_cmd = 6, instanceCount = visibility_counter (culled sc inp ?s1),
               firstIndex = 0, baseVertex = 0, baseInstance = 0\<rparr>,
            ImGui_RenderDrawData, SwapBuffers]"
    unfolding frame_calls_def frame_calls_eq [of sc inp s] C using assms(1) by simp
  have D: "cells (mem (patch_instance_count (culled sc inp ?s1))) =
           (cells (mem (culled sc inp ?s1)))
             (command_buffer := (cells (mem (culled sc inp ?s1)) command_buffer)
                (1 := visibility_counter (culled sc inp ?s1)))"
    by (simp add: patch_instance_count_cells visibility_counter_def)
  have E: "cells (mem (frame sc inp s)) = cells (mem (patch_instance_count (culled sc inp ?s1)))"
    unfolding D frame_eq using assms(1)
    by (simp add: frame_present_def frame_render_cells culled_fields)
  from A C D E show ?thesis by (intro conjI)
qed

theorem instance_count_patch_witness:
  "frame_calls demo_scene (demo_input INSTANCED_INDIRECT) (initial_state (\<lambda>b i. 7)) =
     [BufferSubData counter_buffer,
      DispatchCompute cull_instanced_program 4,
      MemoryBarrier [GL_COMMAND_BARRIER_BIT, GL_SHADER_STORAGE_BARRIER_BIT, GL_ATOMIC_COUNTER_BARRIER_BIT],
      CopyBufferSubData counter_buffer command_buffer 0 4 4,
      DrawElementsIndirect
        \<lparr>count_cmd = 6, instanceCount = 0, firstIndex = 0, baseVertex = 0, baseInstance = 0\<rparr>,
      ImGui_RenderDrawData, SwapBuffers]"
proof -
  have ng: "num_groups_of 1000 = 4"
    by (simp add: num_groups_of_def signed_divide_int_def)
  note T = instance_count_patch [of "demo_input INSTANCED_INDIRECT" "initial_state (\<lambda>b i. 7)" demo_scene,
      unfolded demo_frame_ui, OF demo_state_fields(1) config_ok_initial demo_valid_schedule,
      THEN conjunct1]
  show ?thesis unfolding T by (simp add: demo_counter_zero demo_state_fields(2) ng)
qed

text \<open>
  C8. Every iteration issues, in this order, the counter reset, the culling dispatch,
  one memory barrier, in instanced mode only the copy that patches the instance count,
  the draw, the overlay and the buffer swap; and the one barrier of the iteration names
  the command, shader-storage and atomic-counter classes. (The read-back of the counter
  that sizes the multi-draw belongs to the draw submission and has no state of its own.)
\<close>

theorem frame_sequence:
  "calls (frame sc inp s) = calls s @ frame_calls sc inp s
 \<and> List.map_filter phase_of (frame_calls sc inp s) = frame_phases (current_mode (frame_ui inp s))
 \<and> List.map_filter barrier_of (frame_calls sc inp s) =
     [[GL_COMMAND_BARRIER_BIT, GL_SHADER_STORAGE_BARRIER_BIT, GL_ATOMIC_COUNTER_BARRIER_BIT]]"
  unfolding frame_calls_def frame_calls_eq [of sc inp s]
  by (cases "current_mode (frame_ui inp s)") (simp_all add: List.map_filter_simps frame_phases_def)

text \<open>
  C9 (the code departs from it). The host uploads \<open>element_count\<close> with
  \<open>glUniform1i\<close>, but both culling shaders declare \<open>total_element_count\<close> as
  \<open>uint\<close>: the call raises \<open>GL_INVALID_OPERATION\<close> and stores nothing. In the first
  iteration of the loop, in either mode and with the slider untouched, the host's count
  is 100000 and the count the dispatch consumes is 0, outside \<open>[1000, MAX_ELEMENTS]\<close>.
\<close>

theorem element_count_upload_rejected:
  "element_count (frame_ui (first_input MICRO_BATCH_INDIRECT) (initial_state (\<lambda>b i. 7) :: rat gl_state)) = 100000
 \<and> glGetUniformLocation cull_microbatch_program ''total_element_count'' = 0
 \<and> count_uniform (culled demo_scene (first_input MICRO_BATCH_INDIRECT)
        (frame_ui (first_input MICRO_BATCH_INDIRECT) (initial_state (\<lambda>b i. 7))))
      cull_microbatch_program = 0
 \<and> count_uniform (culled demo_scene (first_input INSTANCED_INDIRECT)
        (frame_ui (first_input INSTANCED_INDIRECT) (initial_state (\<lambda>b i. 7))))
      cull_instanced_program = 0
 \<and> gl_errors (culled demo_scene (first_input MICRO_BATCH_INDIRECT)
        (frame_ui (first_input MICRO_BATCH_INDIRECT) (initial_state (\<lambda>b i. 7)))) = [GL_INVALID_OPERATION]
 \<and> visibility_counter (culled demo_scene (first_input MICRO_BATCH_INDIRECT)
        (frame_ui (first_input MICRO_BATCH_INDIRECT) (initial_state (\<lambda>b i. 7)))) = 0"
proof -
  have u: "count_uniform (frame_ui inp (initial_state g) :: rat gl_state) p = 0" for inp g p
    by (simp add: uniform_defs frame_ui_fields initial_state_def)
  have "visibility_counter (culled demo_scene (first_input MICRO_BATCH_INDIRECT)
        (frame_ui (first_input MICRO_BATCH_INDIRECT) (initial_state (\<lambda>b i. 7)))) = 0"
    by (rule culled_counter_zero) (rule u)
  moreover have "gl_errors (culled demo_scene (first_input MICRO_BATCH_INDIRECT)
        (frame_ui (first_input MICRO_BATCH_INDIRECT) (initial_state (\<lambda>b i. 7)))) = [GL_INVALID_OPERATION]"
    unfolding culled_fields(9) by (simp add: frame_ui_fields initial_state_def)
  ultimately show ?thesis
    by (simp add: first_input_fields culled_fields u glGetUniformLocation_def)
qed

text \<open>
  C10. The command buffer is one buffer object for both modes: it is what the
  micro-batch dispatch writes its commands to, what the instanced dispatch writes its
  shared command to, and what the draw of either mode reads. Work item 0 of the
  instanced shader rewrites all five fields of the shared command, whatever the active
  count and whether or not element 0 is visible. So an instanced frame that follows a
  micro-batch frame draws with \<open>{6, finalCount, 0, 0, 0}\<close> (\<open>finalCount\<close> the
  value of the counter after its culling), independently of the
  per-element commands the micro-batch frame left in the buffer.
\<close>

theorem shared_command_reinitialised:
  assumes "config_ok s"
    and "current_mode (frame_ui inp1 s) = MICRO_BATCH_INDIRECT"
    and "valid_schedule (schedule inp1) (element_count (frame_ui inp1 s))"
    and "s' = frame sc inp1 s"
    and "current_mode (frame_ui inp2 s') = INSTANCED_INDIRECT"
    and "valid_schedule (schedule inp2) (element_count (frame_ui inp2 s'))"
  shows "indexed (culled sc inp1 (frame_ui inp1 s)) GL_SHADER_STORAGE_BUFFER 1 = Some command_buffer
       \<and> bound s' GL_DRAW_INDIRECT_BUFFER = Some command_buffer
       \<and> indexed (culled sc inp2 (frame_ui inp2 s')) GL_SHADER_STORAGE_BUFFER 2 = Some command_buffer
       \<and> bound (frame sc inp2 s') GL_DRAW_INDIRECT_BUFFER = Some command_buffer
       \<and> (\<forall>n P I m visible_ids command visible_count.
            visible_ids \<noteq> command \<and> command \<noteq> visible_count \<longrightarrow>
            read_command (cells (cull_instanced_cs n P I visible_ids command visible_count 0 m) command) 0 =
            \<lparr>count_cmd = 6, instanceCount = 0, firstIndex = 0, baseVertex = 0, baseInstance = 0\<rparr>)
       \<and> read_command (cells (mem (culled sc inp2 (frame_ui inp2 s'))) command_buffer) 0 =
            \<lparr>count_cmd = 6, instanceCount = 0, firstIndex = 0, baseVertex = 0, baseInstance = 0\<rparr>
       \<and> read_command (cells (mem (frame sc inp2 s')) command_buffer) 0 =
            \<lparr>count_cmd = 6,
             instanceCount = visibility_counter (culled sc inp2 (frame_ui inp2 s')),
             firstIndex = 0, baseVertex = 0, baseInstance = 0\<rparr>"
proof -
  have ok': "config_ok s'" unfolding assms(4) using assms(1) by (rule config_ok_frame)
  then have ok2: "config_ok (frame_ui inp2 s')" by (rule config_ok_frame_ui)
  have z: "0 \<in> set (schedule inp2)" using ok2 assms(6) by (rule schedule_has_zero)
  have b: "bound (frame sc inp t) GL_DRAW_INDIRECT_BUFFER = Some command_buffer" for inp and t :: "'a gl_state"
    unfolding frame_eq by (simp add: frame_present_def frame_render_fields)
  have A: "indexed (culled sc inp1 (frame_ui inp1 s)) GL_SHADER_STORAGE_BUFFER 1 = Some command_buffer"
    unfolding culled_fields(2) using assms(2) by simp
  have B: "indexed (culled sc inp2 (frame_ui inp2 s')) GL_SHADER_STORAGE_BUFFER 2 = Some command_buffer"
    using assms(5) by (rule culled_fields(3))
  have C: "read_command (cells (cull_instanced_cs n P I visible_ids command visible_count 0 m) command) 0 =
            \<lparr>count_cmd = 6, instanceCount = 0, firstIndex = 0, baseVertex = 0, baseInstance = 0\<rparr>"
    if "visible_ids \<noteq> command \<and> command \<noteq> visible_count"
    for n and P :: "'b::{plus,times,uminus,zero,one,ord} mat4" and I m visible_ids command visible_count
    using that by (simp add: cull_instanced_cs_command read_command_def)
  note D = culled_instanced_command [OF assms(5) z, of sc]
  have "cells (mem (frame sc inp2 s')) =
           (cells (mem (culled sc inp2 (frame_ui inp2 s'))))
             (command_buffer := (cells (mem (culled sc inp2 (frame_ui inp2 s'))) command_buffer)
                (1 := visibility_counter (culled sc inp2 (frame_ui inp2 s'))))"
    unfolding frame_eq using assms(5)
    by (simp add: frame_present_def frame_render_cells culled_fields)
  then have E: "read_command (cells (mem (frame sc inp2 s')) command_buffer) 0 =
            \<lparr>count_cmd = 6,
             instanceCount = visibility_counter (culled sc inp2 (frame_ui inp2 s')),
             firstIndex = 0, baseVertex = 0, baseInstance = 0\<rparr>"
    using D by (simp add: read_command_def)
  from A b [of inp1 s, folded assms(4)] B b [of inp2 s'] C D E show ?thesis by blast
qed

theorem shared_command_reinitialised_witness:
  "indexed (culled demo_scene (demo_input MICRO_BATCH_INDIRECT) (demo_state MICRO_BATCH_INDIRECT))
      GL_SHADER_STORAGE_BUFFER 1 = Some command_buffer
 \<and> indexed (culled demo_scene (demo_input INSTANCED_INDIRECT)
       (frame_ui (demo_input INSTANCED_INDIRECT)
          (frame demo_scene (demo_input MICRO_BATCH_INDIRECT) (initial_state (\<lambda>b i. 7)))))
      GL_SHADER_STORAGE_BUFFER 2 = Some command_buffer
 \<and> read_command (cells (mem (frame demo_scene (demo_input INSTANCED_INDIRECT)
        (frame demo_scene (demo_input MICRO_BATCH_INDIRECT) (initial_state (\<lambda>b i. 7))))) command_buffer) 0 =
     \<lparr>count_cmd = 6, instanceCount = 0, firstIndex = 0, baseVertex = 0, baseInstance = 0\<rparr>"
proof -
  note T = shared_command_reinitialised [of "initial_state (\<lambda>b i. 7)" "demo_input MICRO_BATCH_INDIRECT"
      _ demo_scene "demo_input INSTANCED_INDIRECT",
      OF config_ok_initial demo_second_frame(2) demo_valid_schedule' refl demo_second_frame(2) demo_valid_schedule',
      unfolded demo_frame_ui]
  have "count_uniform (frame_ui (demo_input INSTANCED_INDIRECT)
          (run_frames demo_scene [demo_input MICRO_BATCH_INDIRECT] (initial_state (\<lambda>b i. 7))))
        (cull_program (current_mode (frame_ui (demo_input INSTANCED_INDIRECT)
          (run_frames demo_scene [demo_input MICRO_BATCH_INDIRECT] (initial_state (\<lambda>b i. 7)))))) = 0"
    unfolding demo_second_frame(2)
    using count_uniform_zero [of demo_scene "[demo_input MICRO_BATCH_INDIRECT]" "\<lambda>b i. 7" INSTANCED_INDIRECT]
    by (simp add: uniform_defs frame_ui_fields)
  then have "visibility_counter (culled demo_scene (demo_input INSTANCED_INDIRECT)
       (frame_ui (demo_input INSTANCED_INDIRECT)
          (run_frames demo_scene [demo_input MICRO_BATCH_INDIRECT] (initial_state (\<lambda>b i. 7))))) = 0"
    by (rule culled_counter_zero)
  then have n: "visibility_counter (culled demo_scene (demo_input INSTANCED_INDIRECT)
       (frame_ui (demo_input INSTANCED_INDIRECT)
          (frame demo_scene (demo_input MICRO_BATCH_INDIRECT) (initial_state (\<lambda>b i. 7))))) = 0"
    by simp
  from T show ?thesis unfolding n by blast
qed

end
